theory Spec2Isabelle
  imports Main "HOL-Library.Word"
begin

unbundle bit_operations_syntax

section \<open>Bytes, exceptions and the packing helpers\<close>

text \<open>
  The module \<open>pycomm3/packets/logix.py\<close> builds and parses the tag-service packets of
  the driver. Python \<open>bytes\<close> are lists of 8-bit words, Python integers are \<open>int\<close>,
  and every exception the module can raise is a value of \<open>exn\<close>; a function that can
  raise returns \<open>exn + 'a\<close> with \<open>Inl\<close> for the exception.
\<close>

type_synonym byte = "8 word"
type_synonym bytes = "byte list"

datatype exn =
    TypeError
  | ValueError
  | IndexError
  | KeyError
  | AttributeError
  | StopIteration
  | StructError
  | CommError
  | RequestError string

text \<open>Little-endian bytes of an integer, \<open>k\<close> of them (two's complement for a negative one).\<close>

fun le_bytes :: "nat \<Rightarrow> int \<Rightarrow> bytes" where
  "le_bytes 0 n = []"
| "le_bytes (Suc k) n = word_of_int n # le_bytes k (n div 256)"

text \<open>
  Modelled from the spec: \<open>Pack.uint\<close>, \<open>Pack.dint\<close>, \<open>Pack.udint\<close> and \<open>Pack.ulint\<close> of
  \<open>pycomm3/bytes_.py\<close>, which is not part of the sources at hand. The spec names them
  as the fixed-width packers of the atomic types (\<open>pack(type_name, value) -> bytes\<close>,
  "element count (as a fixed-width unsigned integer)", 2-byte offsets); they are the
  little-endian CIP encodings of 2, 4, 4 and 8 bytes, and a value outside the range of the
  field raises \<open>struct.error\<close>.
\<close>

definition Pack_uint :: "int \<Rightarrow> exn + bytes" where
  "Pack_uint n = (if 0 \<le> n \<and> n < 65536 then Inr (le_bytes 2 n) else Inl StructError)"

definition Pack_dint :: "int \<Rightarrow> exn + bytes" where
  "Pack_dint n =
     (if - 2147483648 \<le> n \<and> n < 2147483648 then Inr (le_bytes 4 n) else Inl StructError)"

definition Pack_udint :: "int \<Rightarrow> exn + bytes" where
  "Pack_udint n = (if 0 \<le> n \<and> n < 4294967296 then Inr (le_bytes 4 n) else Inl StructError)"

definition Pack_ulint :: "int \<Rightarrow> exn + bytes" where
  "Pack_ulint n =
     (if 0 \<le> n \<and> n < 18446744073709551616 then Inr (le_bytes 8 n) else Inl StructError)"

text \<open>
  Modelled from the spec: \<open>Unpack.uint\<close> of \<open>pycomm3/bytes_.py\<close> (not part of the sources
  at hand): the unsigned little-endian value of the first two bytes, \<open>struct.error\<close> when
  there are fewer than two.
\<close>

definition Unpack_uint :: "bytes \<Rightarrow> exn + nat" where
  "Unpack_uint st =
     (case take 2 st of
        [a, b] \<Rightarrow> Inr (unat a + 256 * unat b)
      | _ \<Rightarrow> Inl StructError)"

text \<open>Python's \<open>xs[:k]\<close>, a negative bound counting from the end.\<close>

definition py_index :: "'a list \<Rightarrow> int \<Rightarrow> nat" where
  "py_index xs k = (if k < 0 then nat (int (length xs) + k) else nat k)"

definition py_take :: "int \<Rightarrow> 'a list \<Rightarrow> 'a list" where
  "py_take k xs = take (py_index xs k) xs"

text \<open>
  The values that end up in a message list \<open>_msg\<close> or as the \<open>value\<close> of a write:
  \<open>bytes\<close>, a sequence of elements still to be packed, or \<open>None\<close>.
\<close>

datatype pyvalue = Bytes bytes | Seq "int list" | PyNone

definition opt_bytes :: "bytes option \<Rightarrow> pyvalue" where
  "opt_bytes b = (case b of None \<Rightarrow> PyNone | Some x \<Rightarrow> Bytes x)"

text \<open>The truth value of an optional string: \<open>None\<close> and the empty string are false.\<close>

definition truthy :: "string option \<Rightarrow> bool" where
  "truthy e = (case e of None \<Rightarrow> False | Some s \<Rightarrow> s \<noteq> [])"

section \<open>Tag requests\<close>

text \<open>
  \<open>tag_info\<close> is the dictionary the driver keeps for a tag; the fields the module reads are
  \<open>tag_type\<close>, \<open>data_type_name\<close>, for a structure
  \<open>data_type.template.structure_handle\<close>, and \<open>data_type\<close> itself where an error
  message formats it (\<open>data_type_text\<close> is the text that formatting gives).
\<close>

record tag_info =
  tag_type :: string
  data_type_name :: string
  data_type_text :: string
  structure_handle :: int

text \<open>
  \<open>TagServiceRequestPacket\<close>: the fields of its constructor, together with the message
  list \<open>_msg\<close> and the \<open>error\<close> that the base class \<open>SendUnitDataRequestPacket\<close> starts
  empty. Subclasses are extensions of the record.
\<close>

record TagServiceRequestPacket =
  tag :: string
  elements :: int
  tag_info :: tag_info
  request_id :: int
  use_instance_id :: bool
  request_path :: "bytes option"
  error :: "string option"
  msg :: "pyvalue list"

record ReadTagFragmentedRequestPacket = TagServiceRequestPacket +
  offset :: int

definition TagServiceRequestPacket_init ::
  "string \<Rightarrow> int \<Rightarrow> tag_info \<Rightarrow> int \<Rightarrow> bool \<Rightarrow> TagServiceRequestPacket" where
  "TagServiceRequestPacket_init t n ti rid uid =
     \<lparr> tag = t, elements = n, tag_info = ti, request_id = rid, use_instance_id = uid,
       request_path = None, error = None, msg = [] \<rparr>"

definition ReadTagFragmentedRequestPacket_init ::
  "string \<Rightarrow> int \<Rightarrow> tag_info \<Rightarrow> int \<Rightarrow> bool \<Rightarrow> int \<Rightarrow> ReadTagFragmentedRequestPacket" where
  "ReadTagFragmentedRequestPacket_init t n ti rid uid off =
     TagServiceRequestPacket.extend (TagServiceRequestPacket_init t n ti rid uid)
       (ReadTagFragmentedRequestPacket.fields off)"

text \<open>
  \<open>ReadTagFragmentedRequestPacket.from_request\<close>: a new fragmented request from a plain or a
  fragmented one, then the request path of the original is assigned to it.
\<close>

definition from_request ::
  "'a TagServiceRequestPacket_scheme \<Rightarrow> int \<Rightarrow> ReadTagFragmentedRequestPacket" where
  "from_request request off =
     (let new_request =
        ReadTagFragmentedRequestPacket_init (tag request) (elements request) (tag_info request)
          (request_id request) (use_instance_id request) off
      in new_request\<lparr> request_path := request_path request \<rparr>)"

text \<open>
  \<open>ReadTagRequestPacket._setup_message\<close>, for the plain and the fragmented read. The path
  compiler \<open>tag_request_path\<close> of \<open>packets/util.py\<close> is the parameter \<open>trp\<close>, the
  service code of the class is \<open>svc\<close>. What the base class's \<open>_setup_message\<close> does to
  the message list is not in the sources at hand; the list is taken as it is found.
\<close>

definition ReadTag_setup_message ::
  "(string \<Rightarrow> tag_info \<Rightarrow> bool \<Rightarrow> bytes option) \<Rightarrow> bytes
     \<Rightarrow> 'a TagServiceRequestPacket_scheme \<Rightarrow> exn + 'a TagServiceRequestPacket_scheme" where
  "ReadTag_setup_message trp svc p =
     (let p1 = (if request_path p = None
                then (let rp = trp (tag p) (tag_info p) (use_instance_id p)
                      in (if rp = None
                          then p\<lparr> request_path := rp,
                                  error := Some ''Failed to build request path for tag'' \<rparr>
                          else p\<lparr> request_path := rp \<rparr>))
                else p)
      in case Pack_uint (elements p1) of
           Inl e \<Rightarrow> Inl e
         | Inr n \<Rightarrow> Inr (p1\<lparr> msg := msg p1 @ [Bytes svc, opt_bytes (request_path p1), Bytes n] \<rparr>))"

section \<open>Read-modify-write\<close>

text \<open>
  \<open>ReadModifyWriteRequestPacket\<close>. The two masks are Python integers, so they are
  unbounded here too. \<open>DataTypeSize\<close> (of \<open>cip.py\<close>) is the parameter \<open>sizes\<close>.
\<close>

record ReadModifyWriteRequestPacket =
  rmw_tag :: string
  rmw_elements :: int
  rmw_tag_info :: tag_info
  rmw_request_id :: int
  rmw_use_instance_id :: bool
  data_type :: string
  rmw_request_path :: "bytes option"
  bits :: "int list"
  request_ids :: "int list"
  and_mask :: int
  or_mask :: int
  mask_size :: nat
  rmw_error :: "string option"
  rmw_msg :: "pyvalue list"

definition ReadModifyWriteRequestPacket_init ::
  "(string \<Rightarrow> tag_info \<Rightarrow> bool \<Rightarrow> bytes option) \<Rightarrow> (string \<rightharpoonup> nat)
     \<Rightarrow> string \<Rightarrow> tag_info \<Rightarrow> int \<Rightarrow> bool \<Rightarrow> exn + ReadModifyWriteRequestPacket" where
  "ReadModifyWriteRequestPacket_init trp sizes t ti rid uid =
     (let rp = trp t ti uid in
      case sizes (data_type_name ti) of
        None \<Rightarrow>
          Inl (RequestError (''Invalid data type '' @ data_type_text ti @ '' for writing bits''))
      | Some sz \<Rightarrow>
          Inr \<lparr> rmw_tag = t, rmw_elements = 0, rmw_tag_info = ti, rmw_request_id = rid,
                rmw_use_instance_id = uid, data_type = data_type_name ti,
                rmw_request_path = rp, bits = [], request_ids = [],
                and_mask = 18446744073709551615, or_mask = 0, mask_size = sz,
                rmw_error = (if rp = None then Some ''Failed to create request path for tag''
                             else None),
                rmw_msg = [] \<rparr>)"

text \<open>
  \<open>set_bit\<close>: the index is reduced modulo 32 when the type is named \<open>DWORD\<close>; \<open>1 << bit\<close>
  raises \<open>ValueError\<close> on a negative shift count.
\<close>

definition rmw_set_bit ::
  "ReadModifyWriteRequestPacket \<Rightarrow> int \<Rightarrow> bool \<Rightarrow> int \<Rightarrow> exn + ReadModifyWriteRequestPacket" where
  "rmw_set_bit p bit0 v rid =
     (let b = (if data_type p = ''DWORD'' then bit0 mod 32 else bit0) in
      if b < 0 then Inl ValueError
      else
        (let m = push_bit (nat b) (1 :: int) in
         Inr (p\<lparr> or_mask := (if v then or_mask p OR m else or_mask p AND NOT m),
                 and_mask := (if v then and_mask p OR m else and_mask p AND NOT m),
                 bits := bits p @ [b],
                 request_ids := request_ids p @ [rid] \<rparr>)))"

text \<open>
  \<open>build_request\<close> assigns the message list and hands it to the base class; the value here
  is that list. \<open>svc\<close> is \<open>Services.read_modify_write\<close>. The OR mask is cut at
  \<open>_mask_size\<close>, the AND mask at the value of \<open>_and_mask\<close> itself, as line 391 has it.
\<close>

definition rmw_build_request ::
  "bytes \<Rightarrow> ReadModifyWriteRequestPacket \<Rightarrow> exn + pyvalue list" where
  "rmw_build_request svc p =
     (case Pack_uint (int (mask_size p)) of
        Inl e \<Rightarrow> Inl e
      | Inr sz \<Rightarrow>
     (case Pack_ulint (or_mask p) of
        Inl e \<Rightarrow> Inl e
      | Inr om \<Rightarrow>
     (case Pack_ulint (and_mask p) of
        Inl e \<Rightarrow> Inl e
      | Inr am \<Rightarrow>
          Inr [Bytes svc, opt_bytes (rmw_request_path p), Bytes sz,
               Bytes (py_take (int (mask_size p)) om),
               Bytes (py_take (and_mask p) am)])))"

text \<open>What the claim describes: both masks cut at the declared width.\<close>

definition rmw_body_by_width ::
  "bytes \<Rightarrow> ReadModifyWriteRequestPacket \<Rightarrow> pyvalue list" where
  "rmw_body_by_width svc p =
     [Bytes svc, opt_bytes (rmw_request_path p), Bytes (le_bytes 2 (int (mask_size p))),
      Bytes (le_bytes (mask_size p) (or_mask p)),
      Bytes (le_bytes (mask_size p) (and_mask p))]"

section \<open>Writing a tag\<close>

text \<open>
  \<open>WriteTagRequestPacket.__init__\<close>. \<open>DataType\<close> (of \<open>cip.py\<close>) is the parameter \<open>types\<close>,
  the service code of the class is \<open>svc\<close>. The two \<open>raise RequestError\<close> leave the
  constructor with \<open>Inl\<close>; a request path that cannot be built is stored in \<open>error\<close>
  and the packet is returned. The message for an unsupported type writes the name
  between single quotes, which is what \<open>repr\<close> gives for a name without quotes or
  characters to escape.
\<close>

record WriteTagRequestPacket = TagServiceRequestPacket +
  value' :: pyvalue
  w_data_type :: string
  packed_data_type :: "bytes option"

definition is_bytes :: "pyvalue \<Rightarrow> bool" where
  "is_bytes v = (case v of Bytes b \<Rightarrow> True | _ \<Rightarrow> False)"

definition WriteTagRequestPacket_init ::
  "(string \<Rightarrow> tag_info \<Rightarrow> bool \<Rightarrow> bytes option) \<Rightarrow> (string \<rightharpoonup> int) \<Rightarrow> bytes
     \<Rightarrow> string \<Rightarrow> int \<Rightarrow> tag_info \<Rightarrow> int \<Rightarrow> bool \<Rightarrow> pyvalue \<Rightarrow> bytes option
     \<Rightarrow> exn + WriteTagRequestPacket" where
  "WriteTagRequestPacket_init trp types svc t n ti rid uid v rp0 =
     (let p0 = TagServiceRequestPacket.extend (TagServiceRequestPacket_init t n ti rid uid)
                 (WriteTagRequestPacket.fields v (data_type_name ti) None);
          rp = (if rp0 \<noteq> None \<and> rp0 \<noteq> Some [] then rp0 else trp t ti uid);
          p1 = p0\<lparr> request_path := rp \<rparr>
      in case rp of
           None \<Rightarrow> Inr (p1\<lparr> error := Some ''Failed to create request path for tag'' \<rparr>)
         | Some path \<Rightarrow>
             (case (if tag_type ti = ''struct''
                    then (if \<not> is_bytes v
                          then Inl (RequestError ''Writing UDTs only supports bytes for value'')
                          else (case Pack_uint (structure_handle ti) of
                                  Inl e \<Rightarrow> Inl e
                                | Inr h \<Rightarrow> Inr ([0xA0, 0x02] @ h)))
                    else (case types (w_data_type p1) of
                            None \<Rightarrow>
                              Inl (RequestError (''Unsupported data type: ''
                                                  @ [CHR 0x27] @ w_data_type p1 @ [CHR 0x27]))
                          | Some code \<Rightarrow> Pack_uint code))
              of Inl e \<Rightarrow> Inl e
               | Inr packed \<Rightarrow>
                  (case Pack_uint n of
                     Inl e \<Rightarrow> Inl e
                   | Inr cnt \<Rightarrow>
                       Inr (p1\<lparr> packed_data_type := Some packed,
                               msg := msg p1 @ [Bytes svc, Bytes path, Bytes packed, Bytes cnt, v]
                             \<rparr>))))"

text \<open>What the claim describes: the failure is stored on the packet that is returned.\<close>

definition reports_error_on_operation :: "exn + WriteTagRequestPacket \<Rightarrow> bool" where
  "reports_error_on_operation r = (case r of Inl e \<Rightarrow> False | Inr p \<Rightarrow> truthy (error p))"

section \<open>Responses and the connection\<close>

text \<open>
  A response, as far as the \<open>send\<close> loops look at it: its service status, the payload
  bytes \<open>bytes_\<close> (the field \<open>bytes'\<close>) and its error text.
\<close>

datatype status = SUCCESS | INSUFFICIENT_PACKETS | Failure nat

record response =
  service_status :: status
  bytes' :: bytes
  resp_error :: "string option"

text \<open>
  Modelled from the spec: the truth value of a response, \<open>__bool__\<close> of the base class
  \<open>SendUnitDataResponsePacket\<close> (\<open>ethernetip.py\<close>, not part of the sources at hand):
  "Validity = general status is Success OR (for fragmented reads) insufficient packets",
  and a response that carries an error is not valid. \<open>frag_read\<close> says whether the
  response belongs to a fragmented read.
\<close>

definition is_valid :: "bool \<Rightarrow> response \<Rightarrow> bool" where
  "is_valid frag_read r =
     (resp_error r = None \<and>
      (service_status r = SUCCESS \<or> (frag_read \<and> service_status r = INSUFFICIENT_PACKETS)))"

text \<open>
  Calling a response class of this module the way the \<open>send\<close> methods do, with
  positional arguments that are a reply of the connection, a \<open>tag_info\<close> or an integer.
  Each \<open>__init__\<close> in the module has the signature \<open>(self, request, raw_data=None)\<close>,
  so a call with no argument or with more than two raises \<open>TypeError\<close>. A call with one
  or two arguments binds the first to \<open>request\<close>, and
  \<open>TagServiceResponsePacket.__init__\<close> reads \<open>request.tag\<close>, \<open>request.elements\<close> and
  \<open>request.tag_info\<close> off it: none of the arguments above is a request packet, and
  reading \<open>tag\<close> off the bytes of a reply raises \<open>AttributeError\<close>.
\<close>

datatype arg = ArgReply response | ArgTagInfo tag_info | ArgInt int

fun response_class_call :: "arg list \<Rightarrow> exn + response" where
  "response_class_call [] = Inl TypeError"
| "response_class_call [a] = Inl AttributeError"
| "response_class_call [a, b] = Inl AttributeError"
| "response_class_call args = Inl TypeError"

text \<open>
  Modelled from the spec: the connection that the \<open>send\<close> methods reach through
  \<open>self._driver\<close>, \<open>self._send\<close> and \<open>self._receive\<close>, which the base class in
  \<open>ethernetip.py\<close> provides and the sources at hand do not contain. The spec names its
  parts: "negotiated maximum payload size (integer), a monotonically increasing sequence
  number source, and send/receive primitives". Here it is the negotiated size, the
  sequence number, the messages sent so far (each one the message list \<open>build_request\<close>
  was called on) and the replies still to come. A reply is received as bytes; the model
  keeps with each the status, payload and error it carries, which only a response class
  written for a reply could read out of it. A receive with no reply left fails with
  \<open>CommError\<close>.
\<close>

record driver =
  connection_size :: int
  sequence :: int
  sent :: "pyvalue list list"
  replies :: "response list"

section \<open>Fragmented write\<close>

text \<open>\<open>range(0, stop, step)\<close> for a \<open>stop\<close> that is a length.\<close>

definition py_range0 :: "nat \<Rightarrow> int \<Rightarrow> exn + nat list" where
  "py_range0 stop step =
     (if step = 0 then Inl ValueError
      else if step < 0 then Inr []
      else Inr (map (\<lambda>j. j * nat step) [0 ..< (stop + nat step - 1) div nat step]))"

definition py_len :: "pyvalue \<Rightarrow> exn + nat" where
  "py_len v = (case v of Bytes b \<Rightarrow> Inr (length b) | Seq xs \<Rightarrow> Inr (length xs)
               | PyNone \<Rightarrow> Inl TypeError)"

text \<open>\<open>value[i : i + segment_size]\<close> for \<open>i\<close> from the range, \<open>segment_size\<close> positive there.\<close>

definition slice_value :: "pyvalue \<Rightarrow> nat \<Rightarrow> nat \<Rightarrow> pyvalue" where
  "slice_value v i k =
     (case v of Bytes b \<Rightarrow> Bytes (take k (drop i b))
              | Seq xs \<Rightarrow> Seq (take k (drop i xs))
              | PyNone \<Rightarrow> PyNone)"

definition segments_of :: "pyvalue \<Rightarrow> int \<Rightarrow> exn + pyvalue list" where
  "segments_of v segment_size =
     (case py_len v of
        Inl e \<Rightarrow> Inl e
      | Inr n \<Rightarrow>
          (case py_range0 n segment_size of
             Inl e \<Rightarrow> Inl e
           | Inr starts \<Rightarrow> Inr (map (\<lambda>i. slice_value v i (nat segment_size)) starts)))"

text \<open>\<open>b''.join(pack_func(s) for s in segment)\<close>; the first element that fails ends it.\<close>

fun join_packed :: "(int \<Rightarrow> exn + bytes) \<Rightarrow> int list \<Rightarrow> exn + bytes" where
  "join_packed f [] = Inr []"
| "join_packed f (x # xs) =
     (case f x of
        Inl e \<Rightarrow> Inl e
      | Inr b \<Rightarrow> (case join_packed f xs of Inl e \<Rightarrow> Inl e | Inr bs \<Rightarrow> Inr (b @ bs)))"

text \<open>
  \<open>pack_func\<close> is \<open>Pack[data_type]\<close> for an atomic tag and the identity otherwise; joining
  elements that the identity left unpacked raises \<open>TypeError\<close>.
\<close>

definition segment_bytes_of :: "(int \<Rightarrow> exn + bytes) option \<Rightarrow> pyvalue \<Rightarrow> exn + bytes" where
  "segment_bytes_of pack_func segment =
     (case segment of
        Bytes b \<Rightarrow> Inr b
      | Seq xs \<Rightarrow>
          (case pack_func of
             None \<Rightarrow> (if xs = [] then Inr [] else Inl TypeError)
           | Some f \<Rightarrow> join_packed f xs)
      | PyNone \<Rightarrow> Inl TypeError)"

text \<open>
  The body of the \<open>for\<close> loop of \<open>WriteTagFragmentedRequestPacket.send\<close>, one segment per
  step: the message list is extended, sent, the reply received and wrapped, the offset
  advanced by the length of the packed segment, the message list reset to the sequence
  number. \<open>mk\<close> is the response class. The result is the list of responses (or the
  exception), the messages sent and the replies left.
\<close>

fun write_rounds ::
  "(arg list \<Rightarrow> exn + response) \<Rightarrow> bytes \<Rightarrow> bytes \<Rightarrow> bytes \<Rightarrow> bytes
     \<Rightarrow> (int \<Rightarrow> exn + bytes) option \<Rightarrow> int
     \<Rightarrow> pyvalue list \<Rightarrow> int \<Rightarrow> pyvalue list \<Rightarrow> response list
     \<Rightarrow> pyvalue list list \<Rightarrow> response list
     \<Rightarrow> (exn + response list) \<times> pyvalue list list \<times> response list" where
  "write_rounds mk svc rp ptype cnt pack_func sq [] off m responses log rs =
     (Inr responses, log, rs)"
| "write_rounds mk svc rp ptype cnt pack_func sq (segment # rest) off m responses log rs =
     (case segment_bytes_of pack_func segment of
        Inl e \<Rightarrow> (Inl e, log, rs)
      | Inr sb \<Rightarrow>
     (case Pack_dint off of
        Inl e \<Rightarrow> (Inl e, log, rs)
      | Inr ob \<Rightarrow>
     (let m1 = m @ [Bytes svc, Bytes rp, Bytes ptype, Bytes cnt, Bytes ob, Bytes sb];
          log1 = log @ [m1]
      in case rs of
           [] \<Rightarrow> (Inl CommError, log1, [])
         | reply # rs1 \<Rightarrow>
             (case mk [ArgReply reply] of
                Inl e \<Rightarrow> (Inl e, log1, rs1)
              | Inr r \<Rightarrow>
                 (case Pack_uint sq of
                    Inl e \<Rightarrow> (Inl e, log1, rs1)
                  | Inr s \<Rightarrow>
                      write_rounds mk svc rp ptype cnt pack_func sq rest
                        (off + int (length sb)) [Bytes s] (responses @ [r]) log1 rs1)))))"

text \<open>
  The failure exit of both \<open>send\<close> methods: the response class is called with no
  argument and the error text is stored on the result.
\<close>

definition failed_response ::
  "(arg list \<Rightarrow> exn + response) \<Rightarrow> string option \<Rightarrow> exn + response" where
  "failed_response mk err =
     (case mk [] of
        Inl e \<Rightarrow> Inl e
      | Inr r \<Rightarrow>
          Inr (r\<lparr> resp_error :=
                    (if truthy err then err
                     else Some ''One or more fragment responses failed'') \<rparr>))"

text \<open>
  \<open>Pack[self.data_type] if self.tag_info['tag_type'] == 'atomic' else lambda x: x\<close>: a type
  name the table does not have raises \<open>KeyError\<close>; \<open>None\<close> stands for the identity.
\<close>

definition pack_func_of ::
  "(string \<rightharpoonup> (int \<Rightarrow> exn + bytes)) \<Rightarrow> WriteTagRequestPacket
     \<Rightarrow> exn + (int \<Rightarrow> exn + bytes) option" where
  "pack_func_of packers p =
     (if tag_type (tag_info p) = ''atomic''
      then (case packers (w_data_type p) of
              None \<Rightarrow> Inl KeyError
            | Some f \<Rightarrow> Inr (Some f))
      else Inr None)"

text \<open>
  \<open>WriteTagFragmentedRequestPacket.send\<close>, with the response class \<open>mk\<close> as a parameter.
  \<open>svc\<close> is \<open>Services.write_tag_fragmented\<close>, \<open>packers\<close> is the table \<open>Pack\<close>, and
  \<open>ptype\<close> is the attribute \<open>_packed_type\<close>, which the method reads and no constructor of
  this module assigns.
\<close>

definition write_send_with ::
  "(arg list \<Rightarrow> exn + response) \<Rightarrow> bytes \<Rightarrow> (string \<rightharpoonup> (int \<Rightarrow> exn + bytes)) \<Rightarrow> bytes
     \<Rightarrow> WriteTagRequestPacket \<Rightarrow> driver \<Rightarrow> (exn + response) \<times> driver" where
  "write_send_with mk svc packers ptype p d =
     (if \<not> truthy (error p) then
        (case request_path p of
           None \<Rightarrow> (Inl TypeError, d)
         | Some rp \<Rightarrow>
        (let segment_size = connection_size d - (int (length rp) + int (length ptype) + 9) in
         case pack_func_of packers p of
           Inl e \<Rightarrow> (Inl e, d)
         | Inr pack_func \<Rightarrow>
        (case segments_of (value' p) segment_size of
           Inl e \<Rightarrow> (Inl e, d)
         | Inr segments \<Rightarrow>
        (case Pack_uint (elements p) of
           Inl e \<Rightarrow> (Inl e, d)
         | Inr cnt \<Rightarrow>
        (case write_rounds mk svc rp ptype cnt pack_func (sequence d) segments 0 (msg p) []
                (sent d) (replies d) of
           (Inl e, log, rs) \<Rightarrow> (Inl e, d\<lparr> sent := log, replies := rs \<rparr>)
         | (Inr responses, log, rs) \<Rightarrow>
             (let d1 = d\<lparr> sent := log, replies := rs \<rparr> in
              if list_all (is_valid False) responses
              then (if responses = [] then (Inl IndexError, d1)
                    else (Inr (last responses), d1))
              else (failed_response mk (error p), d1)))))))
      else (failed_response mk (error p), d))"

text \<open>The method as the module has it: the response class is the one defined there.\<close>

definition WriteTagFragmented_send ::
  "bytes \<Rightarrow> (string \<rightharpoonup> (int \<Rightarrow> exn + bytes)) \<Rightarrow> bytes
     \<Rightarrow> WriteTagRequestPacket \<Rightarrow> driver \<Rightarrow> (exn + response) \<times> driver" where
  "WriteTagFragmented_send = write_send_with response_class_call"

section \<open>Fragmented read\<close>

text \<open>
  The \<open>while\<close> loop of \<open>ReadTagFragmentedRequestPacket.send\<close>, one reply per step. The
  message list is extended with the service, the path, the element count and the current
  offset, and sent; the reply is received and wrapped by the response class \<open>mk\<close>, which
  is called with the reply, \<open>tag_info\<close> and \<open>elements\<close>. On "insufficient packets" the
  offset grows by the length of the bytes received and the loop goes on; any other status
  ends it.
\<close>

fun read_rounds ::
  "(arg list \<Rightarrow> exn + response) \<Rightarrow> bytes \<Rightarrow> bytes option \<Rightarrow> int \<Rightarrow> tag_info \<Rightarrow> int
     \<Rightarrow> int \<Rightarrow> pyvalue list \<Rightarrow> response list \<Rightarrow> pyvalue list list \<Rightarrow> response list
     \<Rightarrow> (exn + response list) \<times> pyvalue list list \<times> response list" where
  "read_rounds mk svc rp n ti sq off m responses log [] =
     (case Pack_uint n of
        Inl e \<Rightarrow> (Inl e, log, [])
      | Inr cnt \<Rightarrow>
     (case Pack_dint off of
        Inl e \<Rightarrow> (Inl e, log, [])
      | Inr ob \<Rightarrow>
          (Inl CommError, log @ [m @ [Bytes svc, opt_bytes rp, Bytes cnt, Bytes ob]], [])))"
| "read_rounds mk svc rp n ti sq off m responses log (reply # rs1) =
     (case Pack_uint n of
        Inl e \<Rightarrow> (Inl e, log, reply # rs1)
      | Inr cnt \<Rightarrow>
     (case Pack_dint off of
        Inl e \<Rightarrow> (Inl e, log, reply # rs1)
      | Inr ob \<Rightarrow>
     (let log1 = log @ [m @ [Bytes svc, opt_bytes rp, Bytes cnt, Bytes ob]] in
      case mk [ArgReply reply, ArgTagInfo ti, ArgInt n] of
        Inl e \<Rightarrow> (Inl e, log1, rs1)
      | Inr r \<Rightarrow>
          (if service_status r = INSUFFICIENT_PACKETS
           then (case Pack_uint sq of
                   Inl e \<Rightarrow> (Inl e, log1, rs1)
                 | Inr s \<Rightarrow>
                     read_rounds mk svc rp n ti sq (off + int (length (bytes' r))) [Bytes s]
                       (responses @ [r]) log1 rs1)
           else (Inr (responses @ [r]), log1, rs1)))))"

text \<open>
  \<open>ReadTagFragmentedRequestPacket.send\<close>, with the response class \<open>mk\<close> as a parameter;
  \<open>svc\<close> is \<open>Services.read_tag_fragmented\<close>. The last response receives the joined bytes
  of all of them; \<open>parse_bytes\<close>, called on it afterwards, is not defined in the sources at
  hand and is left out.
\<close>

definition read_send_with ::
  "(arg list \<Rightarrow> exn + response) \<Rightarrow> bytes
     \<Rightarrow> ReadTagFragmentedRequestPacket \<Rightarrow> driver \<Rightarrow> (exn + response) \<times> driver" where
  "read_send_with mk svc p d =
     (if \<not> truthy (error p) then
        (case read_rounds mk svc (request_path p) (elements p) (tag_info p) (sequence d) 0
                (msg p) [] (sent d) (replies d) of
           (Inl e, log, rs) \<Rightarrow> (Inl e, d\<lparr> sent := log, replies := rs \<rparr>)
         | (Inr responses, log, rs) \<Rightarrow>
             (let d1 = d\<lparr> sent := log, replies := rs \<rparr> in
              if list_all (is_valid True) responses
              then (if responses = [] then (Inl IndexError, d1)
                    else (Inr ((last responses)\<lparr> bytes' := concat (map bytes' responses) \<rparr>),
                          d1))
              else (failed_response mk (error p), d1)))
      else (failed_response mk (error p), d))"

text \<open>The method as the module has it: the response class is the one defined there.\<close>

definition ReadTagFragmented_send ::
  "bytes \<Rightarrow> ReadTagFragmentedRequestPacket \<Rightarrow> driver \<Rightarrow> (exn + response) \<times> driver" where
  "ReadTagFragmented_send = read_send_with response_class_call"

section \<open>Multi-service packets\<close>

text \<open>
  The requests of a batch are read requests, plain or fragmented; \<open>svc_read\<close> and
  \<open>svc_frag\<close> are the service codes \<open>Services.read_tag\<close> and
  \<open>Services.read_tag_fragmented\<close> of the two classes.
\<close>

datatype read_request =
    Plain TagServiceRequestPacket
  | Fragmented ReadTagFragmentedRequestPacket

fun tag_service :: "bytes \<Rightarrow> bytes \<Rightarrow> read_request \<Rightarrow> bytes" where
  "tag_service svc_read svc_frag (Plain p) = svc_read"
| "tag_service svc_read svc_frag (Fragmented p) = svc_frag"

fun setup_message ::
  "(string \<Rightarrow> tag_info \<Rightarrow> bool \<Rightarrow> bytes option) \<Rightarrow> bytes \<Rightarrow> bytes
     \<Rightarrow> read_request \<Rightarrow> exn + read_request" where
  "setup_message trp svc_read svc_frag (Plain p) =
     (case ReadTag_setup_message trp svc_read p of
        Inl e \<Rightarrow> Inl e
      | Inr p1 \<Rightarrow> Inr (Plain p1))"
| "setup_message trp svc_read svc_frag (Fragmented p) =
     (case ReadTag_setup_message trp svc_frag p of
        Inl e \<Rightarrow> Inl e
      | Inr p1 \<Rightarrow>
          (case Pack_udint (offset p1) of
             Inl e \<Rightarrow> Inl e
           | Inr ob \<Rightarrow> Inr (Fragmented (p1\<lparr> msg := msg p1 @ [Bytes ob] \<rparr>))))"

fun req_path :: "read_request \<Rightarrow> bytes option" where
  "req_path (Plain p) = request_path p"
| "req_path (Fragmented p) = request_path p"

fun req_elements :: "read_request \<Rightarrow> int" where
  "req_elements (Plain p) = elements p"
| "req_elements (Fragmented p) = elements p"

text \<open>
  The first loop of \<open>build_message\<close>: each request sets its message up, then its segment
  is the service code, the request path and the element count joined; joining a path
  that is \<open>None\<close> raises \<open>TypeError\<close>.
\<close>

fun build_segments ::
  "(string \<Rightarrow> tag_info \<Rightarrow> bool \<Rightarrow> bytes option) \<Rightarrow> bytes \<Rightarrow> bytes
     \<Rightarrow> read_request list \<Rightarrow> exn + bytes list" where
  "build_segments trp svc_read svc_frag [] = Inr []"
| "build_segments trp svc_read svc_frag (request # rest) =
     (case setup_message trp svc_read svc_frag request of
        Inl e \<Rightarrow> Inl e
      | Inr r1 \<Rightarrow>
     (case req_path r1 of
        None \<Rightarrow> Inl TypeError
      | Some rp \<Rightarrow>
     (case Pack_uint (req_elements r1) of
        Inl e \<Rightarrow> Inl e
      | Inr cnt \<Rightarrow>
     (case build_segments trp svc_read svc_frag rest of
        Inl e \<Rightarrow> Inl e
      | Inr ms \<Rightarrow> Inr ((tag_service svc_read svc_frag r1 @ rp @ cnt) # ms)))))"

text \<open>The second loop: one packed offset per segment, the offset growing by its length.\<close>

fun build_offsets :: "int \<Rightarrow> bytes list \<Rightarrow> exn + bytes list" where
  "build_offsets off [] = Inr []"
| "build_offsets off (m # ms) =
     (case Pack_uint off of
        Inl e \<Rightarrow> Inl e
      | Inr ob \<Rightarrow>
          (case build_offsets (off + int (length m)) ms of
             Inl e \<Rightarrow> Inl e
           | Inr obs \<Rightarrow> Inr (ob # obs)))"

text \<open>\<open>b''.join\<close> of a message list: every part must be \<open>bytes\<close>.\<close>

fun join_parts :: "pyvalue list \<Rightarrow> exn + bytes" where
  "join_parts [] = Inr []"
| "join_parts (Bytes b # ps) =
     (case join_parts ps of Inl e \<Rightarrow> Inl e | Inr bs \<Rightarrow> Inr (b @ bs))"
| "join_parts (v # ps) = Inl TypeError"

text \<open>
  \<open>MultiServiceRequestPacket.build_message\<close>. \<open>m\<close> is the message list as
  \<open>super().build_message()\<close> leaves it (the multi-service code and the path of the
  message router).
\<close>

definition build_message ::
  "(string \<Rightarrow> tag_info \<Rightarrow> bool \<Rightarrow> bytes option) \<Rightarrow> bytes \<Rightarrow> bytes
     \<Rightarrow> pyvalue list \<Rightarrow> read_request list \<Rightarrow> exn + bytes" where
  "build_message trp svc_read svc_frag m requests =
     (let num_requests = int (length requests) in
      case Pack_uint num_requests of
        Inl e \<Rightarrow> Inl e
      | Inr cnt \<Rightarrow>
     (case build_segments trp svc_read svc_frag requests of
        Inl e \<Rightarrow> Inl e
      | Inr messages \<Rightarrow>
     (case build_offsets (2 + num_requests * 2) messages of
        Inl e \<Rightarrow> Inl e
      | Inr offsets \<Rightarrow>
          join_parts (m @ [Bytes cnt] @ map Bytes offsets @ map Bytes messages))))"

text \<open>What the claim describes: the offsets by their recurrence.\<close>

fun offset_table :: "nat \<Rightarrow> nat list \<Rightarrow> nat list" where
  "offset_table off [] = []"
| "offset_table off (l # ls) = off # offset_table (off + l) ls"

text \<open>\<open>offset_data[i:i+2]\<close> for \<open>i\<close> in \<open>range(0, len(offset_data), 2)\<close>.\<close>

fun chunks2 :: "bytes \<Rightarrow> bytes list" where
  "chunks2 [] = []"
| "chunks2 [a] = [[a]]"
| "chunks2 (a # b # rest) = [a, b] # chunks2 rest"

fun unpack_all :: "bytes list \<Rightarrow> exn + nat list" where
  "unpack_all [] = Inr []"
| "unpack_all (c # cs) =
     (case Unpack_uint c of
        Inl e \<Rightarrow> Inl e
      | Inr v \<Rightarrow> (case unpack_all cs of Inl e \<Rightarrow> Inl e | Inr vs \<Rightarrow> Inr (v # vs)))"

text \<open>\<open>zip_longest(start, end)\<close> where \<open>end\<close> is \<open>start\<close> advanced by one.\<close>

definition start_end_pairs :: "nat list \<Rightarrow> (nat \<times> nat option) list" where
  "start_end_pairs offsets = zip offsets (map Some (tl offsets) @ [None])"

definition slice_from_to :: "bytes \<Rightarrow> nat \<times> nat option \<Rightarrow> bytes" where
  "slice_from_to d ij =
     (case snd ij of None \<Rightarrow> drop (fst ij) d | Some j \<Rightarrow> drop (fst ij) (take j d))"

text \<open>
  A response of the batch: the request it answers, the raw data it is built from, the
  \<open>data\<close> the base class leaves on it, and for a fragmented read the \<open>value_bytes\<close> and
  the \<open>_data_type\<close> cut out of that data.
\<close>

record sub_response =
  sub_request :: read_request
  raw_data :: bytes
  data :: "bytes option"
  value_bytes :: "bytes option"
  data_type_bytes :: "bytes option"

definition padding :: bytes where
  "padding = replicate 46 0"

text \<open>
  \<open>request.response_class(request, raw_data)\<close> for the two read classes. The constructor
  copies the request's fields and the base class parses the raw data and leaves
  \<open>self.data\<close>; that parser is in \<open>ethernetip.py\<close>, not in the sources at hand, and is the
  parameter \<open>base_data\<close> (\<open>None\<close> where it leaves no data). \<open>ReadTagResponsePacket\<close> does
  all further parsing inside a \<open>try\<close> and raises nothing. \<open>ReadTagFragmentedResponsePacket\<close>
  then subscripts \<open>self.data\<close> outside of any \<open>try\<close>, which raises \<open>TypeError\<close> on
  \<open>None\<close>; \<open>srr\<close> is the constant \<open>STRUCTURE_READ_REPLY\<close>. The value that
  \<open>parse_read_reply\<close> decodes is not modelled.
\<close>

fun response_class ::
  "(bytes \<Rightarrow> bytes option) \<Rightarrow> bytes \<Rightarrow> read_request \<Rightarrow> bytes \<Rightarrow> exn + sub_response" where
  "response_class base_data srr (Plain p) raw =
     Inr \<lparr> sub_request = Plain p, raw_data = raw, data = base_data raw,
           value_bytes = None, data_type_bytes = None \<rparr>"
| "response_class base_data srr (Fragmented p) raw =
     (case base_data raw of
        None \<Rightarrow> Inl TypeError
      | Some dat \<Rightarrow>
          (if take 2 dat = srr
           then Inr \<lparr> sub_request = Fragmented p, raw_data = raw, data = Some dat,
                      value_bytes = Some (drop 4 dat), data_type_bytes = Some (take 4 dat) \<rparr>
           else Inr \<lparr> sub_request = Fragmented p, raw_data = raw, data = Some dat,
                      value_bytes = Some (drop 2 dat), data_type_bytes = Some (take 2 dat) \<rparr>))"

text \<open>
  The \<open>for\<close> loop of \<open>_parse_reply\<close>: one response per pair of a slice and a request,
  built from the slice behind the padding; the first constructor that raises ends it.
\<close>

fun build_responses ::
  "(bytes \<Rightarrow> bytes option) \<Rightarrow> bytes \<Rightarrow> (bytes \<times> read_request) list
     \<Rightarrow> exn + sub_response list" where
  "build_responses base_data srr [] = Inr []"
| "build_responses base_data srr ((dat, request) # rest) =
     (case response_class base_data srr request (padding @ dat) of
        Inl e \<Rightarrow> Inl e
      | Inr r \<Rightarrow>
          (case build_responses base_data srr rest of
             Inl e \<Rightarrow> Inl e
           | Inr rs \<Rightarrow> Inr (r # rs)))"

text \<open>
  \<open>MultiServiceResponsePacket._parse_reply\<close> on the data \<open>d\<close> of the reply. \<open>next(end)\<close>
  raises \<open>StopIteration\<close> when there is no offset at all.
\<close>

definition parse_reply ::
  "(bytes \<Rightarrow> bytes option) \<Rightarrow> bytes \<Rightarrow> bytes \<Rightarrow> read_request list
     \<Rightarrow> exn + sub_response list" where
  "parse_reply base_data srr d requests =
     (case Unpack_uint d of
        Inl e \<Rightarrow> Inl e
      | Inr num_replies \<Rightarrow>
     (let offset_data = take (2 * num_replies) (drop 2 d);
          chunks = chunks2 offset_data
      in if chunks = [] then Inl StopIteration
         else
           (case unpack_all chunks of
              Inl e \<Rightarrow> Inl e
            | Inr offsets \<Rightarrow>
                (let reply_data = map (slice_from_to d) (start_end_pairs offsets)
                 in build_responses base_data srr (zip reply_data requests)))))"

text \<open>What the claim describes: the offset at position \<open>i\<close> of the table, and slice \<open>i\<close>.\<close>

definition offset_at :: "bytes \<Rightarrow> nat \<Rightarrow> nat" where
  "offset_at d i = unat (d ! (2 + 2 * i)) + 256 * unat (d ! (3 + 2 * i))"

definition slice_at :: "bytes \<Rightarrow> nat \<Rightarrow> nat \<Rightarrow> bytes" where
  "slice_at d n i =
     (if Suc i < n then drop (offset_at d i) (take (offset_at d (Suc i)) d)
      else drop (offset_at d i) d)"

section \<open>The messages a fragmented transfer is expected to send\<close>

text \<open>
  The messages of a fragmented write whose packed segments are \<open>sbs\<close>: the first one
  extends the message list \<open>m\<close> the packet starts with, every later one starts from the
  packed sequence number; each carries the offset reached so far and one segment.
\<close>

fun planned_writes ::
  "bytes \<Rightarrow> bytes \<Rightarrow> bytes \<Rightarrow> bytes \<Rightarrow> int \<Rightarrow> int \<Rightarrow> pyvalue list \<Rightarrow> bytes list
     \<Rightarrow> pyvalue list list" where
  "planned_writes svc rp ptype cnt sq off m [] = []"
| "planned_writes svc rp ptype cnt sq off m (sb # sbs) =
     (m @ [Bytes svc, Bytes rp, Bytes ptype, Bytes cnt, Bytes (le_bytes 4 off), Bytes sb])
       # planned_writes svc rp ptype cnt sq (off + int (length sb)) [Bytes (le_bytes 2 sq)] sbs"

text \<open>The offsets a fragmented transfer goes through, one per chunk, from \<open>off\<close>.\<close>

fun running_offsets :: "int \<Rightarrow> bytes list \<Rightarrow> int list" where
  "running_offsets off [] = []"
| "running_offsets off (b # bs) = off # running_offsets (off + int (length b)) bs"

text \<open>The messages of a fragmented read whose rounds return the payloads \<open>bs\<close>.\<close>

fun planned_reads ::
  "bytes \<Rightarrow> bytes option \<Rightarrow> bytes \<Rightarrow> int \<Rightarrow> int \<Rightarrow> pyvalue list \<Rightarrow> bytes list
     \<Rightarrow> pyvalue list list" where
  "planned_reads svc rp cnt sq off m [] = []"
| "planned_reads svc rp cnt sq off m (b # bs) =
     (m @ [Bytes svc, opt_bytes rp, Bytes cnt, Bytes (le_bytes 4 off)])
       # planned_reads svc rp cnt sq (off + int (length b)) [Bytes (le_bytes 2 sq)] bs"

text \<open>
  A response class with the signature the call in the read loop is written for:
  the reply, \<open>tag_info\<close> and \<open>elements\<close>.
\<close>

fun reply_info_elements_call :: "arg list \<Rightarrow> exn + response" where
  "reply_info_elements_call [ArgReply r, ArgTagInfo ti, ArgInt n] = Inr r"
| "reply_info_elements_call args = Inl TypeError"

text \<open>
  A response class with the signature the call in the write loop is written for: the
  reply alone.
\<close>

fun reply_call :: "arg list \<Rightarrow> exn + response" where
  "reply_call [ArgReply r] = Inr r"
| "reply_call args = Inl TypeError"

text \<open>The length of the segment a sent message ends with.\<close>

definition segment_length :: "pyvalue list \<Rightarrow> nat" where
  "segment_length m = (case last m of Bytes b \<Rightarrow> length b | _ \<Rightarrow> 0)"

section \<open>Concrete tags, packets and connections\<close>

definition ex_path :: bytes where
  "ex_path = [145, 4, 116, 97, 103, 49]"

definition ex_trp :: "string \<Rightarrow> tag_info \<Rightarrow> bool \<Rightarrow> bytes option" where
  "ex_trp t ti u = Some ex_path"

definition ex_types :: "string \<rightharpoonup> int" where
  "ex_types = [''DINT'' \<mapsto> 196, ''DWORD'' \<mapsto> 211]"

definition ex_sizes :: "string \<rightharpoonup> nat" where
  "ex_sizes = [''DINT'' \<mapsto> 4, ''DWORD'' \<mapsto> 4, ''SINT'' \<mapsto> 1]"

definition ex_packers :: "string \<rightharpoonup> (int \<Rightarrow> exn + bytes)" where
  "ex_packers = [''DINT'' \<mapsto> Pack_dint]"

definition dint_info :: tag_info where
  "dint_info = \<lparr> tag_type = ''atomic'', data_type_name = ''DINT'',
                 data_type_text = ''DINT'', structure_handle = 0 \<rparr>"

definition dword_info :: tag_info where
  "dword_info = \<lparr> tag_type = ''atomic'', data_type_name = ''DWORD'',
                  data_type_text = ''DWORD'', structure_handle = 0 \<rparr>"

definition lreal_info :: tag_info where
  "lreal_info = \<lparr> tag_type = ''atomic'', data_type_name = ''FLOAT128'',
                  data_type_text = ''FLOAT128'', structure_handle = 0 \<rparr>"

definition udt_info :: tag_info where
  "udt_info = \<lparr> tag_type = ''struct'', data_type_name = ''Recipe'',
                data_type_text = ''{}'', structure_handle = 4660 \<rparr>"

definition ok_reply :: response where
  "ok_reply = \<lparr> service_status = SUCCESS, bytes' = [], resp_error = None \<rparr>"

definition failed_reply :: response where
  "failed_reply = \<lparr> service_status = Failure 4, bytes' = [], resp_error = Some ''No reply'' \<rparr>"

definition part_reply :: "bytes \<Rightarrow> response" where
  "part_reply b = \<lparr> service_status = INSUFFICIENT_PACKETS, bytes' = b, resp_error = None \<rparr>"

definition final_reply :: "bytes \<Rightarrow> response" where
  "final_reply b = \<lparr> service_status = SUCCESS, bytes' = b, resp_error = None \<rparr>"

definition ex_driver :: "int \<Rightarrow> response list \<Rightarrow> driver" where
  "ex_driver csize rs = \<lparr> connection_size = csize, sequence = 7, sent = [], replies = rs \<rparr>"

text \<open>A write of four DINT elements, a write of five raw bytes of a structure, an empty one.\<close>

definition ex_dint_write :: WriteTagRequestPacket where
  "ex_dint_write =
     \<lparr> tag = ''tag1'', elements = 4, tag_info = dint_info, request_id = 1,
       use_instance_id = True, request_path = Some ex_path, error = None,
       msg = [Bytes [83], Bytes ex_path, Bytes [196, 0], Bytes [4, 0], Seq [1, 2, 3, 4]],
       value' = Seq [1, 2, 3, 4], w_data_type = ''DINT'', packed_data_type = Some [196, 0] \<rparr>"

definition ex_udt_write :: "bytes \<Rightarrow> WriteTagRequestPacket" where
  "ex_udt_write v =
     \<lparr> tag = ''tag1'', elements = 1, tag_info = udt_info, request_id = 1,
       use_instance_id = True, request_path = Some ex_path, error = None,
       msg = [Bytes [83], Bytes ex_path, Bytes [160, 2, 52, 18], Bytes [1, 0], Bytes v],
       value' = Bytes v, w_data_type = ''Recipe'', packed_data_type = Some [160, 2, 52, 18] \<rparr>"

definition ex_read :: ReadTagFragmentedRequestPacket where
  "ex_read =
     from_request ((TagServiceRequestPacket_init ''tag1'' 4 dint_info 1 True)
                     \<lparr> request_path := Some ex_path \<rparr>) 0"

definition ex_dword_rmw :: ReadModifyWriteRequestPacket where
  "ex_dword_rmw =
     \<lparr> rmw_tag = ''flags'', rmw_elements = 0, rmw_tag_info = dword_info, rmw_request_id = 1,
       rmw_use_instance_id = True, data_type = ''DWORD'', rmw_request_path = Some ex_path,
       bits = [], request_ids = [], and_mask = 18446744073709551615, or_mask = 0,
       mask_size = 4, rmw_error = None, rmw_msg = [] \<rparr>"

definition ex_dint_rmw :: ReadModifyWriteRequestPacket where
  "ex_dint_rmw =
     \<lparr> rmw_tag = ''count'', rmw_elements = 0, rmw_tag_info = dint_info, rmw_request_id = 1,
       rmw_use_instance_id = True, data_type = ''DINT'', rmw_request_path = Some ex_path,
       bits = [], request_ids = [], and_mask = 18446744073709551615, or_mask = 0,
       mask_size = 4, rmw_error = None, rmw_msg = [] \<rparr>"

text \<open>Two bit writes, then the request is built.\<close>

definition set_two_bits ::
  "ReadModifyWriteRequestPacket \<Rightarrow> exn + ReadModifyWriteRequestPacket" where
  "set_two_bits p =
     (case rmw_set_bit p 0 True 1 of
        Inl e \<Rightarrow> Inl e
      | Inr p1 \<Rightarrow> rmw_set_bit p1 1 False 2)"

definition set_two_bits_and_build ::
  "bytes \<Rightarrow> ReadModifyWriteRequestPacket \<Rightarrow> exn + pyvalue list" where
  "set_two_bits_and_build svc p =
     (case set_two_bits p of
        Inl e \<Rightarrow> Inl e
      | Inr p2 \<Rightarrow> rmw_build_request svc p2)"

text \<open>A batch of three reads whose segments are 10, 6 and 14 bytes long, and a reply to it.\<close>

definition ex_request :: "bytes \<Rightarrow> read_request" where
  "ex_request path =
     Plain ((TagServiceRequestPacket_init ''t'' 1 dint_info 1 True)
              \<lparr> request_path := Some path \<rparr>)"

definition ex_batch :: "read_request list" where
  "ex_batch = [ex_request [1, 2, 3, 4, 5, 6, 7], ex_request [1, 2, 3],
               ex_request [1, 2, 3, 4, 5, 6, 7, 8, 9, 10, 11]]"

text \<open>
  The same batch with a fragmented read in the middle; a base parser that leaves
  everything behind the first 50 bytes, and no data when there are fewer than 49; the
  marker of a structure reply.
\<close>

definition ex_mixed_batch :: "read_request list" where
  "ex_mixed_batch =
     [ex_request [1, 2, 3, 4, 5, 6, 7],
      Fragmented (from_request ((TagServiceRequestPacket_init ''t'' 1 dint_info 1 True)
                                  \<lparr> request_path := Some [1, 2, 3] \<rparr>) 0),
      ex_request [1, 2, 3, 4, 5, 6, 7, 8, 9, 10, 11]]"

definition ex_base_data :: "bytes \<Rightarrow> bytes option" where
  "ex_base_data raw = (if length raw < 49 then None else Some (drop 50 raw))"

definition ex_srr :: bytes where
  "ex_srr = [160, 2]"

definition ex_batch_reply :: bytes where
  "ex_batch_reply =
     [3, 0, 8, 0, 18, 0, 24, 0, 1, 1, 1, 1, 1, 1, 1, 1, 1, 1, 2, 2, 2, 2, 2, 2,
      3, 3, 3, 3, 3, 3, 3, 3, 3, 3, 3, 3, 3, 3]"

section \<open>Facts about the helpers\<close>

lemma length_le_bytes: "length (le_bytes k n) = k"
  by (induction k arbitrary: n) auto

lemma le_bytes_2: "le_bytes 2 n = [word_of_int n, word_of_int (n div 256)]"
  by (simp add: eval_nat_numeral)

lemma le_bytes_4:
  "le_bytes 4 n = [word_of_int n, word_of_int (n div 256), word_of_int (n div 256 div 256),
                   word_of_int (n div 256 div 256 div 256)]"
  by (simp add: eval_nat_numeral)

lemma le_bytes_8:
  "le_bytes 8 n = le_bytes 4 n @ le_bytes 4 (n div 256 div 256 div 256 div 256)"
  by (simp add: eval_nat_numeral)

lemma py_take_all: "int (length xs) \<le> k \<Longrightarrow> py_take k xs = xs"
  by (simp add: py_take_def py_index_def)

lemma py_take_numeral: "py_take (numeral k) xs = take (numeral k) xs"
  by (simp add: py_take_def py_index_def)

lemmas pack_defs = Pack_uint_def Pack_dint_def Pack_udint_def Pack_ulint_def

lemmas ex_defs = ex_path_def ex_trp_def ex_types_def ex_sizes_def ex_packers_def
  dint_info_def dword_info_def lreal_info_def udt_info_def ok_reply_def failed_reply_def
  part_reply_def final_reply_def ex_driver_def

section \<open>Read-modify-write: the masks and the request body\<close>

text \<open>The two example packets are what the constructor builds for a DWORD and a DINT tag.\<close>

lemma ex_dword_rmw_init:
  "ReadModifyWriteRequestPacket_init ex_trp ex_sizes ''flags'' dword_info 1 True
     = Inr ex_dword_rmw"
  by (simp add: ReadModifyWriteRequestPacket_init_def ex_defs ex_dword_rmw_def Let_def)

lemma ex_dint_rmw_init:
  "ReadModifyWriteRequestPacket_init ex_trp ex_sizes ''count'' dint_info 1 True
     = Inr ex_dint_rmw"
  by (simp add: ReadModifyWriteRequestPacket_init_def ex_defs ex_dint_rmw_def Let_def)

text \<open>
  C3. The claim: the body of a read-modify-write request is the service code, the path,
  the mask width \<open>w\<close>, the low \<open>w\<close> bytes of the OR mask and the low \<open>w\<close> bytes of the AND
  mask; for a DWORD tag after \<open>set_bit(0, True)\<close> and \<open>set_bit(1, False)\<close> the AND mask
  bytes are \<open>0xFFFFFFFD\<close> and the OR mask bytes \<open>0x00000001\<close>. On that very input
  \<open>build_request\<close> gives the four OR bytes \<open>01 00 00 00\<close>, but eight AND bytes
  \<open>FD FF FF FF FF FF FF FF\<close>: the AND mask is sliced at its own value, not at the width.
\<close>

theorem rmw_build_request_and_mask_uncut:
  "set_two_bits_and_build [78] ex_dword_rmw =
     Inr [Bytes [78], Bytes ex_path, Bytes [4, 0], Bytes [1, 0, 0, 0],
          Bytes [253, 255, 255, 255, 255, 255, 255, 255]]
   \<and> map_sum id (rmw_body_by_width [78]) (set_two_bits ex_dword_rmw) =
     Inr [Bytes [78], Bytes ex_path, Bytes [4, 0], Bytes [1, 0, 0, 0],
          Bytes [253, 255, 255, 255]]"
  by (simp add: set_two_bits_and_build_def set_two_bits_def ex_dword_rmw_def rmw_set_bit_def
      rmw_build_request_def rmw_body_by_width_def pack_defs Let_def le_bytes_2 le_bytes_4
      le_bytes_8 py_take_all py_take_numeral opt_bytes_def)

text \<open>
  In general: the OR mask is cut at the width, and the AND mask is not cut at all as soon
  as its value is 8 or more, which it is unless nearly every bit has been cleared.
\<close>

lemma take_le_bytes: "k \<le> n \<Longrightarrow> take k (le_bytes n x) = le_bytes k x"
proof (induction n arbitrary: k x)
  case 0
  then show ?case by simp
next
  case (Suc n)
  then show ?case by (cases k) auto
qed

lemma rmw_build_request_body:
  assumes "0 \<le> or_mask p" "or_mask p < 18446744073709551616"
      and "8 \<le> and_mask p" "and_mask p < 18446744073709551616"
      and "mask_size p \<le> 8"
  shows "rmw_build_request svc p =
           Inr [Bytes svc, opt_bytes (rmw_request_path p),
                Bytes (le_bytes 2 (int (mask_size p))),
                Bytes (le_bytes (mask_size p) (or_mask p)),
                Bytes (le_bytes 8 (and_mask p))]"
  using assms
  by (simp add: rmw_build_request_def pack_defs py_take_all length_le_bytes py_take_def
      py_index_def take_le_bytes)

text \<open>
  C7, as stated: a later \<open>set_bit\<close> for the same bit overrides an earlier one, and for a
  32-bit-wide type the index is reduced modulo 32, so that \<open>set_bit(35, v)\<close> gives the
  masks of \<open>set_bit(3, v)\<close>. The second half fails for a DINT tag, which is 32 bits wide
  (mask width 4): \<open>set_bit(35, True)\<close> sets bit 35 of the OR mask, \<open>set_bit(3, True)\<close>
  sets bit 3.
\<close>

theorem rmw_set_bit_dint_counterexample:
  "mask_size ex_dint_rmw = 4
   \<and> map_sum id or_mask (rmw_set_bit ex_dint_rmw 35 True 1) = Inr 34359738368
   \<and> map_sum id or_mask (rmw_set_bit ex_dint_rmw 3 True 1) = Inr 8"
  by (simp add: ex_dint_rmw_def rmw_set_bit_def Let_def)

text \<open>
  C7, amended: the index is reduced modulo 32 exactly when the type is named DWORD. For a
  DWORD tag and any index, or for any other type and an index that is not negative, two
  calls for the same bit both succeed and leave the bit they address (the index modulo 32
  for DWORD, the index itself otherwise) with the value of the later call in both masks;
  and for a DWORD tag \<open>set_bit(b, v)\<close> is \<open>set_bit(b mod 32, v)\<close>.
\<close>

theorem rmw_set_bit_last_wins:
  assumes "data_type p = ''DWORD'' \<or> 0 \<le> b"
  shows "\<exists>p1 p2. rmw_set_bit p b v1 r1 = Inr p1 \<and> rmw_set_bit p1 b v2 r2 = Inr p2
     \<and> bit (or_mask p2) (nat (if data_type p = ''DWORD'' then b mod 32 else b)) = v2
     \<and> bit (and_mask p2) (nat (if data_type p = ''DWORD'' then b mod 32 else b)) = v2
     \<and> (data_type p = ''DWORD'' \<longrightarrow> rmw_set_bit p b v1 r1 = rmw_set_bit p (b mod 32) v1 r1)"
  using assms
  by (auto simp: rmw_set_bit_def Let_def bit_simps)

text \<open>
  The amended C7 on the DWORD example: \<open>set_bit(35, True)\<close> is \<open>set_bit(3, True)\<close>, and
  after \<open>set_bit(35, True)\<close> then \<open>set_bit(35, False)\<close> bit 3 is clear in both masks.
\<close>

theorem rmw_set_bit_last_wins_witness:
  "data_type ex_dword_rmw = ''DWORD''
   \<and> rmw_set_bit ex_dword_rmw 35 True 1 = rmw_set_bit ex_dword_rmw 3 True 1
   \<and> (\<exists>p1 p2. rmw_set_bit ex_dword_rmw 35 True 1 = Inr p1
        \<and> rmw_set_bit p1 35 False 2 = Inr p2
        \<and> \<not> bit (or_mask p2) 3 \<and> \<not> bit (and_mask p2) 3)"
  using rmw_set_bit_last_wins [of ex_dword_rmw 35 True 1 False 2]
  by (auto simp: ex_dword_rmw_def)

section \<open>Continuing a read as a fragmented read\<close>

text \<open>
  C10. For every read request \<open>r\<close>, plain or fragmented, and every offset \<open>k\<close>,
  \<open>from_request(r, k)\<close> has the tag, the element count, the tag information, the request
  id and the instance-addressing flag of \<open>r\<close>, carries the request path of \<open>r\<close> as it is
  (the path compiler is not an argument of \<open>from_request\<close>, so nothing is compiled), and
  has the offset \<open>k\<close>.
\<close>

theorem from_request_copies:
  "tag (from_request r k) = tag r
   \<and> elements (from_request r k) = elements r
   \<and> tag_info (from_request r k) = tag_info r
   \<and> request_id (from_request r k) = request_id r
   \<and> use_instance_id (from_request r k) = use_instance_id r
   \<and> request_path (from_request r k) = request_path r
   \<and> offset (from_request r k) = k"
  by (simp add: from_request_def ReadTagFragmentedRequestPacket_init_def
      TagServiceRequestPacket_init_def TagServiceRequestPacket.extend_def
      ReadTagFragmentedRequestPacket.fields_def Let_def)

section \<open>Building a write request\<close>

text \<open>The example packets are what the constructor builds.\<close>

lemma ex_dint_write_init:
  "WriteTagRequestPacket_init ex_trp ex_types [83] ''tag1'' 4 dint_info 1 True
     (Seq [1, 2, 3, 4]) None = Inr ex_dint_write"
  by (simp add: WriteTagRequestPacket_init_def TagServiceRequestPacket_init_def
      TagServiceRequestPacket.extend_def WriteTagRequestPacket.fields_def ex_defs
      ex_dint_write_def Let_def pack_defs le_bytes_2)

lemma ex_udt_write_init:
  "WriteTagRequestPacket_init ex_trp ex_types [83] ''tag1'' 1 udt_info 1 True (Bytes v) None
     = Inr (ex_udt_write v)"
  by (simp add: WriteTagRequestPacket_init_def TagServiceRequestPacket_init_def
      TagServiceRequestPacket.extend_def WriteTagRequestPacket.fields_def ex_defs
      ex_udt_write_def Let_def pack_defs le_bytes_2 is_bytes_def)

text \<open>
  C9, as stated: a structure value that is not raw bytes, and an atomic type name outside
  the supported set, are reported as an error result attached to the operation and not
  raised. For a structure tag written with a sequence the constructor raises
  \<open>RequestError\<close>: no packet is returned that could carry the error.
\<close>

theorem write_init_raises_counterexample:
  "WriteTagRequestPacket_init ex_trp ex_types [77] ''tag1'' 1 udt_info 1 True
     (Seq [1, 2, 3]) None
     = Inl (RequestError ''Writing UDTs only supports bytes for value'')
   \<and> \<not> reports_error_on_operation
         (WriteTagRequestPacket_init ex_trp ex_types [77] ''tag1'' 1 udt_info 1 True
            (Seq [1, 2, 3]) None)"
  by (simp add: WriteTagRequestPacket_init_def ex_defs Let_def is_bytes_def
      reports_error_on_operation_def)

text \<open>
  C9, amended: when the request path is available (passed in, or built by the path
  compiler), a structure value that is not raw bytes and an atomic type name outside the
  supported set are each detected by the constructor, which has no access to the
  connection, and are raised as \<open>RequestError\<close>: the operation is not built.
\<close>

theorem write_init_raises:
  assumes "(rp0 \<noteq> None \<and> rp0 \<noteq> Some []) \<or> trp t ti uid \<noteq> None"
  shows "(tag_type ti = ''struct'' \<and> \<not> is_bytes v \<longrightarrow>
            WriteTagRequestPacket_init trp types svc t n ti rid uid v rp0
              = Inl (RequestError ''Writing UDTs only supports bytes for value''))
       \<and> (tag_type ti \<noteq> ''struct'' \<and> types (data_type_name ti) = None \<longrightarrow>
            WriteTagRequestPacket_init trp types svc t n ti rid uid v rp0
              = Inl (RequestError (''Unsupported data type: ''
                                    @ [CHR 0x27] @ data_type_name ti @ [CHR 0x27])))"
  using assms
  by (auto simp: WriteTagRequestPacket_init_def Let_def TagServiceRequestPacket_init_def
      TagServiceRequestPacket.extend_def WriteTagRequestPacket.fields_def split: option.splits)

text \<open>
  The amended C9 on a structure tag written with a sequence and on an atomic tag of a type
  the table does not have.
\<close>

theorem write_init_raises_witness:
  "ex_trp ''tag1'' udt_info True \<noteq> None
   \<and> tag_type udt_info = ''struct'' \<and> \<not> is_bytes (Seq [1, 2, 3])
   \<and> WriteTagRequestPacket_init ex_trp ex_types [77] ''tag1'' 1 udt_info 1 True
        (Seq [1, 2, 3]) None
        = Inl (RequestError ''Writing UDTs only supports bytes for value'')
   \<and> tag_type lreal_info \<noteq> ''struct'' \<and> ex_types (data_type_name lreal_info) = None
   \<and> WriteTagRequestPacket_init ex_trp ex_types [77] ''tag1'' 1 lreal_info 1 True
        (Seq [1, 2, 3]) None
        = Inl (RequestError (''Unsupported data type: '' @ [CHR 0x27] @ ''FLOAT128''
                              @ [CHR 0x27]))"
  using write_init_raises [of None ex_trp "''tag1''" udt_info True "Seq [1, 2, 3]"
      ex_types "[77]" 1 1]
    write_init_raises [of None ex_trp "''tag1''" lreal_info True "Seq [1, 2, 3]"
      ex_types "[77]" 1 1]
  by (simp add: ex_defs is_bytes_def)

text \<open>
  The one failure the constructor does store on the packet: a request path that cannot
  be built. The type checks are then skipped and the message list stays empty.
\<close>

lemma write_init_no_path:
  "(rp0 = None \<or> rp0 = Some []) \<Longrightarrow> trp t ti uid = None \<Longrightarrow>
   \<exists>p. WriteTagRequestPacket_init trp types svc t n ti rid uid v rp0 = Inr p
      \<and> error p = Some ''Failed to create request path for tag'' \<and> msg p = []"
  by (auto simp: WriteTagRequestPacket_init_def Let_def TagServiceRequestPacket_init_def
      TagServiceRequestPacket.extend_def WriteTagRequestPacket.fields_def)

section \<open>Fragmented write: what is sent and what is returned\<close>

lemmas send_defs = WriteTagFragmented_send_def write_send_with_def pack_func_of_def
  segments_of_def py_len_def py_range0_def slice_value_def segment_bytes_of_def
  failed_response_def truthy_def is_valid_def segment_length_def

text \<open>
  C8. The claim: a fragmented write of a value of length zero still sends exactly one
  segment and returns that round's response. On an empty value the range of segment
  starts is empty, so nothing is sent, the list of responses stays empty, and
  \<open>responses[-1]\<close> raises \<open>IndexError\<close>; the connection is left as it was.
\<close>

theorem write_empty_value_sends_nothing:
  "WriteTagFragmented_send [83] ex_packers [160, 2, 52, 18] (ex_udt_write [])
     (ex_driver 500 [ok_reply])
     = (Inl IndexError, ex_driver 500 [ok_reply])"
  by (simp add: send_defs ex_udt_write_def ex_defs Let_def pack_defs le_bytes_2)

text \<open>
  C1. The claim: the budget is the connection size minus (path length + packed-type
  length + 9), and the value is split into consecutive segments, each no larger than
  that budget, whose wire lengths add up to the whole value, the offset advancing by
  each. A write of four DINT elements over a connection whose budget is 8 bytes, room
  for two elements, sends all four elements as one segment of 16 bytes: the budget is
  applied to the number of elements, not to their bytes. The call then raises
  \<open>AttributeError\<close> when the reply is handed to the response class as its request.
\<close>

theorem write_atomic_segment_over_budget:
  "connection_size (ex_driver 25 [ok_reply])
      - (int (length ex_path) + int (length [196, 0 :: byte]) + 9) = 8
   \<and> WriteTagFragmented_send [83] ex_packers [196, 0] ex_dint_write (ex_driver 25 [ok_reply])
       = (Inl AttributeError,
          \<lparr> connection_size = 25, sequence = 7,
            sent = [[Bytes [83], Bytes ex_path, Bytes [196, 0], Bytes [4, 0],
                     Seq [1, 2, 3, 4],
                     Bytes [83], Bytes ex_path, Bytes [196, 0], Bytes [4, 0],
                     Bytes [0, 0, 0, 0],
                     Bytes [1, 0, 0, 0, 2, 0, 0, 0, 3, 0, 0, 0, 4, 0, 0, 0]]],
            replies = [] \<rparr>)
   \<and> map segment_length
         (sent (snd (WriteTagFragmented_send [83] ex_packers [196, 0] ex_dint_write
                       (ex_driver 25 [ok_reply])))) = [16]"
  by (simp add: send_defs ex_dint_write_def ex_defs Let_def pack_defs le_bytes_2 le_bytes_4
      upt_rec)

text \<open>
  In general, with a positive budget \<open>k\<close> the value is cut into consecutive pieces of at
  most \<open>k\<close> items: bytes of a value given as raw bytes, so that the claim holds for
  it, and elements of a value given as a sequence, each of which packs into several
  bytes (four for a DINT).
\<close>

lemma concat_chunks:
  "concat (map (\<lambda>i. take k (drop i v)) (map (\<lambda>j. j * k) [0..<m])) = take (m * k) v"
proof (induction m)
  case 0
  then show ?case by simp
next
  case (Suc m)
  have "take (m * k) v @ take k (drop (m * k) v) = take (m * k + k) v"
    by (simp add: take_add)
  then show ?case using Suc by (simp add: add.commute)
qed

lemma chunks_cover:
  assumes "0 < k"
  shows "concat (map (\<lambda>i. take k (drop i v))
                   (map (\<lambda>j. j * k) [0..<(length v + k - 1) div k])) = v"
proof -
  define t where "t = length v + k - 1"
  define q where "q = t div k"
  have "t = q * k + t mod k" by (simp add: q_def)
  moreover have "t mod k < k" using assms by simp
  ultimately have "t < q * k + k" by linarith
  then have "length v \<le> q * k" using assms by (simp add: t_def)
  then show ?thesis by (simp only: concat_chunks) (simp add: q_def t_def)
qed

lemma segments_of_Bytes:
  assumes "0 < k"
  shows "\<exists>chunks. segments_of (Bytes v) k = Inr (map Bytes chunks)
           \<and> concat chunks = v
           \<and> (\<forall>c \<in> set chunks. length c \<le> nat k)"
proof -
  let ?chunks = "map (\<lambda>i. take (nat k) (drop i v))
                   (map (\<lambda>j. j * nat k) [0..<(length v + nat k - 1) div nat k])"
  have k: "0 < nat k" using assms by simp
  have "concat ?chunks = v" by (rule chunks_cover [OF k])
  moreover have "segments_of (Bytes v) k = Inr (map Bytes ?chunks)"
    using assms by (simp add: segments_of_def py_len_def py_range0_def slice_value_def comp_def)
  moreover have "\<forall>c \<in> set ?chunks. length c \<le> nat k" by auto
  ultimately show ?thesis by blast
qed

lemma segments_of_Seq:
  assumes "0 < k"
  shows "\<exists>chunks. segments_of (Seq xs) k = Inr (map Seq chunks)
           \<and> concat chunks = xs
           \<and> (\<forall>c \<in> set chunks. length c \<le> nat k)"
proof -
  let ?chunks = "map (\<lambda>i. take (nat k) (drop i xs))
                   (map (\<lambda>j. j * nat k) [0..<(length xs + nat k - 1) div nat k])"
  have k: "0 < nat k" using assms by simp
  have "concat ?chunks = xs" by (rule chunks_cover [OF k])
  moreover have "segments_of (Seq xs) k = Inr (map Seq ?chunks)"
    using assms by (simp add: segments_of_def py_len_def py_range0_def slice_value_def comp_def)
  moreover have "\<forall>c \<in> set ?chunks. length c \<le> nat k" by auto
  ultimately show ?thesis by blast
qed

lemma join_packed_Pack_dint:
  "\<forall>x \<in> set xs. - 2147483648 \<le> x \<and> x < 2147483648 \<Longrightarrow>
   \<exists>b. join_packed Pack_dint xs = Inr b \<and> length b = 4 * length xs"
  by (induction xs) (auto simp: Pack_dint_def length_le_bytes)

text \<open>
  C6. The claim: when a round's response is a failure, no further segment is sent and a
  single failure response is returned for the whole write. With five raw bytes, a
  budget of 3 and a failed first reply, \<open>send\<close> sends the first segment and raises
  \<open>AttributeError\<close>: the reply is handed to the response class as its request. The exit
  that is to build the failure response raises too: on a packet that carries an error
  \<open>send\<close> calls the response class with no argument and ends in \<open>TypeError\<close>. No call of
  \<open>send\<close> returns a failure response.
\<close>

theorem write_failure_raises:
  "WriteTagFragmented_send [83] ex_packers [160, 2, 52, 18] (ex_udt_write [1, 2, 3, 4, 5])
     (ex_driver 22 [failed_reply, ok_reply])
     = (Inl AttributeError,
        \<lparr> connection_size = 22, sequence = 7,
          sent = [[Bytes [83], Bytes ex_path, Bytes [160, 2, 52, 18], Bytes [1, 0],
                   Bytes [1, 2, 3, 4, 5],
                   Bytes [83], Bytes ex_path, Bytes [160, 2, 52, 18], Bytes [1, 0],
                   Bytes [0, 0, 0, 0], Bytes [1, 2, 3]]],
          replies = [ok_reply] \<rparr>)
   \<and> WriteTagFragmented_send [83] ex_packers [160, 2, 52, 18]
       ((ex_udt_write [1, 2, 3, 4, 5])\<lparr> error := Some ''Failed to create request path for tag'' \<rparr>)
       (ex_driver 22 [])
     = (Inl TypeError, ex_driver 22 [])"
  by (simp add: send_defs ex_udt_write_def ex_defs Let_def pack_defs le_bytes_2 le_bytes_4
      upt_rec)

text \<open>
  The loop around the two calls, with a response class that accepts the reply: every
  segment is sent, once and in order, each at the offset reached by the packed lengths of
  the segments before it, whatever the responses are, and the responses are looked at
  only after the last segment.
\<close>

lemma write_rounds_sends_all:
  assumes "map (segment_bytes_of pf) segs = map Inr sbs"
      and "0 \<le> off" and "off + int (sum_list (map length sbs)) < 2147483648"
      and "0 \<le> sq" and "sq < 65536"
      and "length segs \<le> length rs"
  shows "write_rounds reply_call svc rp ptype cnt pf sq segs off m responses log rs
       = (Inr (responses @ take (length segs) rs),
          log @ planned_writes svc rp ptype cnt sq off m sbs,
          drop (length segs) rs)"
  using assms
proof (induction segs arbitrary: sbs off m responses log rs)
  case Nil
  then show ?case by simp
next
  case (Cons seg segs)
  from Cons.prems(1) obtain sb sbs' where sbs: "sbs = sb # sbs'"
    and sb: "segment_bytes_of pf seg = Inr sb"
    and rest: "map (segment_bytes_of pf) segs = map Inr sbs'"
    by (cases sbs) auto
  from Cons.prems(6) obtain reply rs1 where rs: "rs = reply # rs1"
    and len: "length segs \<le> length rs1"
    by (cases rs) auto
  have off1: "0 \<le> off + int (length sb)" using Cons.prems(2) by simp
  have off2: "off + int (length sb) + int (sum_list (map length sbs')) < 2147483648"
    using Cons.prems(3) sbs by simp
  have pd: "Pack_dint off = Inr (le_bytes 4 off)"
    using Cons.prems(2,3) by (simp add: Pack_dint_def)
  have pu: "Pack_uint sq = Inr (le_bytes 2 sq)"
    using Cons.prems(4,5) by (simp add: Pack_uint_def)
  show ?case
    unfolding sbs rs
    by (simp add: sb pd pu Let_def
        Cons.IH [OF rest off1 off2 Cons.prems(4) Cons.prems(5) len])
qed

lemma length_planned_writes:
  "length (planned_writes svc rp ptype cnt sq off m sbs) = length sbs"
  by (induction sbs arbitrary: off m) auto

lemma segment_length_planned_writes:
  "map segment_length (planned_writes svc rp ptype cnt sq off m sbs) = map length sbs"
  by (induction sbs arbitrary: off m) (auto simp: segment_length_def)

lemma write_send_with_sends_all:
  assumes noerr: "\<not> truthy (error p)"
      and path: "request_path p = Some rp"
      and pf: "pack_func_of packers p = Inr pf"
      and segs: "segments_of (value' p)
                   (connection_size d - (int (length rp) + int (length ptype) + 9)) = Inr segs"
      and packed: "map (segment_bytes_of pf) segs = map Inr sbs"
      and total: "sum_list (map length sbs) < 2147483648"
      and cnt: "0 \<le> elements p \<and> elements p < 65536"
      and sq: "0 \<le> sequence d \<and> sequence d < 65536"
      and enough: "length segs \<le> length (replies d)"
  shows "sent (snd (write_send_with reply_call svc packers ptype p d))
           = sent d @ planned_writes svc rp ptype (le_bytes 2 (elements p)) (sequence d) 0
                        (msg p) sbs
         \<and> map segment_length
               (planned_writes svc rp ptype (le_bytes 2 (elements p)) (sequence d) 0 (msg p) sbs)
             = map length sbs
         \<and> replies (snd (write_send_with reply_call svc packers ptype p d))
             = drop (length segs) (replies d)
         \<and> (segs \<noteq> [] \<and> list_all (is_valid False) (take (length segs) (replies d)) \<longrightarrow>
              fst (write_send_with reply_call svc packers ptype p d)
                = Inr (last (take (length segs) (replies d))))"
proof -
  have pu: "Pack_uint (elements p) = Inr (le_bytes 2 (elements p))"
    using cnt by (simp add: Pack_uint_def)
  have rounds: "write_rounds reply_call svc rp ptype (le_bytes 2 (elements p)) pf
                  (sequence d) segs 0 (msg p) [] (sent d) (replies d)
       = (Inr (take (length segs) (replies d)),
          sent d @ planned_writes svc rp ptype (le_bytes 2 (elements p)) (sequence d) 0
                     (msg p) sbs,
          drop (length segs) (replies d))"
    using write_rounds_sends_all [OF packed, of 0 "sequence d" "replies d" svc rp ptype
        "le_bytes 2 (elements p)" "msg p" "[]" "sent d"] total sq enough
    by simp
  have fr: "failed_response reply_call (error p) = Inl TypeError"
    by (simp add: failed_response_def)
  show ?thesis
    unfolding write_send_with_def Let_def
    using noerr enough
    by (auto simp: path pf segs pu rounds fr segment_length_planned_writes)
qed

lemma write_send_with_example:
  "map segment_length
     (sent (snd (write_send_with reply_call [83] ex_packers [160, 2, 52, 18]
                   (ex_udt_write [1, 2, 3, 4, 5]) (ex_driver 22 [failed_reply, ok_reply]))))
   = [3, 2]"
  by (simp add: send_defs ex_udt_write_def ex_defs Let_def pack_defs le_bytes_2 le_bytes_4
      upt_rec)

section \<open>Fragmented read: the loop and the reassembly\<close>

lemmas read_defs = ReadTagFragmented_send_def read_send_with_def failed_response_def truthy_def
  is_valid_def ex_read_def from_request_def ReadTagFragmentedRequestPacket_init_def
  TagServiceRequestPacket_init_def TagServiceRequestPacket.extend_def
  ReadTagFragmentedRequestPacket.fields_def opt_bytes_def

text \<open>
  C2. The claim: when every round answers "insufficient packets" until a valid last
  round, the offset advances by the bytes received in each round and the response
  returned carries all rounds' bytes joined in order. With three such rounds and a last
  one waiting on the connection, \<open>send\<close> sends the first request (offset 0), receives
  the first reply and raises \<open>TypeError\<close>: the response class is called with the reply,
  \<open>tag_info\<close> and \<open>elements\<close>, and its constructor takes a request and the raw data.
  No offset is advanced and nothing is reassembled.
\<close>

theorem read_send_raises_on_first_reply:
  "ReadTagFragmented_send [82] ex_read
     (ex_driver 500 [part_reply [1, 2], part_reply [3], part_reply [4, 5, 6], final_reply [7]])
   = (Inl TypeError,
      \<lparr> connection_size = 500, sequence = 7,
        sent = [[Bytes [82], Bytes ex_path, Bytes [4, 0], Bytes [0, 0, 0, 0]]],
        replies = [part_reply [3], part_reply [4, 5, 6], final_reply [7]] \<rparr>)"
  by (simp add: read_defs ex_defs Let_def pack_defs le_bytes_2 le_bytes_4)

text \<open>
  The loop itself is the one the claim describes. With a response class that accepts the
  call, every "insufficient packets" round is followed by a request at the offset grown
  by the bytes just received, the first other status ends the loop, and the last response
  is returned with the bytes of all rounds joined in order.
\<close>

lemma read_rounds_collects:
  assumes "\<forall>r \<in> set parts. service_status r = INSUFFICIENT_PACKETS"
      and "service_status final \<noteq> INSUFFICIENT_PACKETS"
      and "0 \<le> n" and "n < 65536" and "0 \<le> sq" and "sq < 65536"
      and "0 \<le> off"
      and "off + int (sum_list (map (\<lambda>r. length (bytes' r)) parts)) < 2147483648"
  shows "read_rounds reply_info_elements_call svc rp n ti sq off m responses log
           (parts @ final # extra)
       = (Inr (responses @ parts @ [final]),
          log @ planned_reads svc rp (le_bytes 2 n) sq off m (map bytes' (parts @ [final])),
          extra)"
  using assms
proof (induction parts arbitrary: off m responses log)
  case Nil
  then show ?case by (simp add: pack_defs Let_def)
next
  case (Cons r parts)
  have st: "service_status r = INSUFFICIENT_PACKETS" using Cons.prems(1) by simp
  have rest: "\<forall>r \<in> set parts. service_status r = INSUFFICIENT_PACKETS"
    using Cons.prems(1) by simp
  have off1: "0 \<le> off + int (length (bytes' r))" using Cons.prems(7) by simp
  have off2: "off + int (length (bytes' r))
                + int (sum_list (map (\<lambda>r. length (bytes' r)) parts)) < 2147483648"
    using Cons.prems(8) by simp
  have pk: "Pack_uint n = Inr (le_bytes 2 n)" "Pack_uint sq = Inr (le_bytes 2 sq)"
      "Pack_dint off = Inr (le_bytes 4 off)"
    using Cons.prems by (simp_all add: pack_defs)
  show ?case
    by (simp add: pk st Let_def
        Cons.IH [OF rest Cons.prems(2-6) off1 off2])
qed

lemma planned_reads_offsets:
  "map (\<lambda>msg. msg ! (length msg - 1)) (planned_reads svc rp cnt sq off m bs)
     = map (\<lambda>x. Bytes (le_bytes 4 x)) (running_offsets off bs)"
  by (induction bs arbitrary: off m) (auto simp: nth_append)

lemma read_send_with_reassembles:
  assumes "\<not> truthy (error p)"
      and "replies d = parts @ final # extra"
      and "\<forall>r \<in> set parts. service_status r = INSUFFICIENT_PACKETS \<and> is_valid True r"
      and "service_status final \<noteq> INSUFFICIENT_PACKETS" and "is_valid True final"
      and "0 \<le> elements p \<and> elements p < 65536"
      and "0 \<le> sequence d \<and> sequence d < 65536"
      and "sum_list (map (\<lambda>r. length (bytes' r)) parts) < 2147483648"
  shows "read_send_with reply_info_elements_call svc p d
       = (Inr (final\<lparr> bytes' := concat (map bytes' (parts @ [final])) \<rparr>),
          d\<lparr> sent := sent d @ planned_reads svc (request_path p) (le_bytes 2 (elements p))
                                  (sequence d) 0 (msg p) (map bytes' (parts @ [final])),
             replies := extra \<rparr>)"
proof -
  have st: "\<forall>r \<in> set parts. service_status r = INSUFFICIENT_PACKETS"
    using assms(3) by simp
  have valid: "list_all (is_valid True) (parts @ [final])"
    using assms(3,5) by (simp add: list_all_iff)
  have rounds: "read_rounds reply_info_elements_call svc (request_path p) (elements p)
                  (tag_info p) (sequence d) 0 (msg p) [] (sent d) (parts @ final # extra)
       = (Inr (parts @ [final]),
          sent d @ planned_reads svc (request_path p) (le_bytes 2 (elements p)) (sequence d) 0
                     (msg p) (map bytes' (parts @ [final])),
          extra)"
    using read_rounds_collects [OF st assms(4), where n = "elements p" and sq = "sequence d"
        and off = 0 and extra = extra and svc = svc and rp = "request_path p"
        and ti = "tag_info p" and m = "msg p" and responses = "[]" and log = "sent d"]
      assms(6,7,8)
    by simp
  show ?thesis
    unfolding read_send_with_def Let_def
    using assms(1) valid by (simp add: assms(2) rounds)
qed

lemma read_send_with_example:
  "fst (read_send_with reply_info_elements_call [82] ex_read
     (ex_driver 500 [part_reply [1, 2], part_reply [3], part_reply [4, 5, 6], final_reply [7]]))
   = Inr (final_reply [1, 2, 3, 4, 5, 6, 7])"
  by (simp add: read_defs ex_defs Let_def pack_defs le_bytes_2 le_bytes_4)

section \<open>Multi-service packets: the offset table and the slices\<close>

lemma build_segments_length:
  "build_segments trp a b rs = Inr segs \<Longrightarrow> length segs = length rs"
  by (induction rs arbitrary: segs) (auto split: sum.splits option.splits)

lemma build_offsets_table:
  "0 \<le> off \<Longrightarrow> off + int (sum_list (map length ms)) < 65536 \<Longrightarrow>
   build_offsets off ms =
     Inr (map (\<lambda>x. le_bytes 2 (int x)) (offset_table (nat off) (map length ms)))"
proof (induction ms arbitrary: off)
  case Nil
  then show ?case by simp
next
  case (Cons m ms)
  have "0 \<le> off + int (length m)" using Cons.prems by simp
  moreover have "off + int (length m) + int (sum_list (map length ms)) < 65536"
    using Cons.prems by simp
  ultimately have ih: "build_offsets (off + int (length m)) ms =
     Inr (map (\<lambda>x. le_bytes 2 (int x))
            (offset_table (nat (off + int (length m))) (map length ms)))"
    by (rule Cons.IH)
  have pk: "Pack_uint off = Inr (le_bytes 2 off)"
    using Cons.prems by (simp add: Pack_uint_def)
  have n: "nat (off + int (length m)) = nat off + length m"
    using Cons.prems by (simp add: nat_add_distrib)
  show ?case using Cons.prems by (simp add: ih pk n)
qed

lemma join_parts_Bytes: "join_parts (map Bytes xs) = Inr (concat xs)"
  by (induction xs) auto

lemma join_parts_append:
  "join_parts m = Inr pre \<Longrightarrow>
   join_parts (m @ ps) = (case join_parts ps of Inl e \<Rightarrow> Inl e | Inr b \<Rightarrow> Inr (pre @ b))"
  by (induction m arbitrary: pre rule: join_parts.induct) (auto split: sum.splits)

lemma length_offset_table: "length (offset_table off ls) = length ls"
  by (induction ls arbitrary: off) auto

lemma offset_table_0: "ls \<noteq> [] \<Longrightarrow> offset_table off ls ! 0 = off"
  by (cases ls) auto

lemma offset_table_Suc:
  "Suc i < length ls \<Longrightarrow> offset_table off ls ! Suc i = offset_table off ls ! i + ls ! i"
proof (induction ls arbitrary: off i)
  case Nil
  then show ?case by simp
next
  case (Cons l ls)
  show ?case
  proof (cases i)
    case 0
    then show ?thesis using Cons.prems by (cases ls) auto
  next
    case (Suc j)
    then show ?thesis using Cons.prems Cons.IH [of j "off + l"] by simp
  qed
qed

lemma length_concat_le_bytes_2:
  "length (concat (map (\<lambda>x. le_bytes 2 (int x)) xs)) = 2 * length xs"
  by (induction xs) (auto simp: length_le_bytes)

text \<open>
  C4. For a batch of \<open>n\<close> requests whose segments are built, a message list that is all
  bytes, and a table and segments that stay below 65536 bytes (every offset is packed
  into two bytes), \<open>build_message\<close> returns the bytes of the message list, the count,
  the offsets and the segments in that order; the count and the offsets take
  \<open>2 + 2 * n\<close> bytes, the first offset is \<open>2 + 2 * n\<close> and each later one is the one
  before it plus the length of the segment before it.
\<close>

theorem build_message_offset_table:
  assumes segs: "build_segments trp svc_read svc_frag requests = Inr segs"
      and pre: "join_parts m = Inr pre"
      and fits: "2 + 2 * length requests + sum_list (map length segs) < 65536"
  shows "build_message trp svc_read svc_frag m requests =
           Inr (pre @ le_bytes 2 (int (length requests))
                @ concat (map (\<lambda>x. le_bytes 2 (int x))
                            (offset_table (2 + 2 * length requests) (map length segs)))
                @ concat segs)
         \<and> length (le_bytes 2 (int (length requests))
                   @ concat (map (\<lambda>x. le_bytes 2 (int x))
                               (offset_table (2 + 2 * length requests) (map length segs))))
             = 2 + 2 * length requests
         \<and> (requests \<noteq> [] \<longrightarrow>
              offset_table (2 + 2 * length requests) (map length segs) ! 0
                = 2 + 2 * length requests)
         \<and> (\<forall>i. Suc i < length requests \<longrightarrow>
              offset_table (2 + 2 * length requests) (map length segs) ! Suc i
                = offset_table (2 + 2 * length requests) (map length segs) ! i
                  + length (segs ! i))"
proof -
  let ?n = "length requests"
  have len: "length segs = ?n" using segs by (rule build_segments_length)
  have cnt: "Pack_uint (int ?n) = Inr (le_bytes 2 (int ?n))"
    using fits by (simp add: Pack_uint_def)
  have "(2::int) + int ?n * 2 + int (sum_list (map length segs)) < 65536"
    using fits by linarith
  then have offs: "build_offsets (2 + int ?n * 2) segs =
      Inr (map (\<lambda>x. le_bytes 2 (int x)) (offset_table (nat (2 + int ?n * 2)) (map length segs)))"
    by (intro build_offsets_table) simp_all
  have nat_eq: "nat (2 + int ?n * 2) = 2 + 2 * ?n" by simp
  have join: "join_parts (m @ [Bytes (le_bytes 2 (int ?n))]
                @ map Bytes (map (\<lambda>x. le_bytes 2 (int x))
                               (offset_table (2 + 2 * ?n) (map length segs)))
                @ map Bytes segs)
        = Inr (pre @ le_bytes 2 (int ?n)
                @ concat (map (\<lambda>x. le_bytes 2 (int x))
                            (offset_table (2 + 2 * ?n) (map length segs)))
                @ concat segs)"
    using join_parts_Bytes [of "[le_bytes 2 (int ?n)]
             @ map (\<lambda>x. le_bytes 2 (int x)) (offset_table (2 + 2 * ?n) (map length segs))
             @ segs"]
    by (simp add: join_parts_append [OF pre])
  have 1: "build_message trp svc_read svc_frag m requests =
           Inr (pre @ le_bytes 2 (int ?n)
                @ concat (map (\<lambda>x. le_bytes 2 (int x))
                            (offset_table (2 + 2 * ?n) (map length segs)))
                @ concat segs)"
    unfolding build_message_def Let_def
    by (simp only: cnt segs offs nat_eq sum.case join)
  have 2: "length (le_bytes 2 (int ?n)
                   @ concat (map (\<lambda>x. le_bytes 2 (int x))
                               (offset_table (2 + 2 * ?n) (map length segs))))
             = 2 + 2 * ?n"
    by (simp add: length_le_bytes length_concat_le_bytes_2 length_offset_table len)
  have 3: "requests \<noteq> [] \<longrightarrow> offset_table (2 + 2 * ?n) (map length segs) ! 0 = 2 + 2 * ?n"
    using len by (auto intro!: offset_table_0)
  have 4: "\<forall>i. Suc i < ?n \<longrightarrow>
              offset_table (2 + 2 * ?n) (map length segs) ! Suc i
                = offset_table (2 + 2 * ?n) (map length segs) ! i + length (segs ! i)"
    using len by (auto simp: offset_table_Suc)
  from 1 2 3 4 show ?thesis by blast
qed

lemma ex_batch_segments:
  "build_segments ex_trp [76] [82] ex_batch =
     Inr [[76, 1, 2, 3, 4, 5, 6, 7, 1, 0], [76, 1, 2, 3, 1, 0],
          [76, 1, 2, 3, 4, 5, 6, 7, 8, 9, 10, 11, 1, 0]]"
  by (simp add: ex_batch_def ex_request_def ReadTag_setup_message_def
      TagServiceRequestPacket_init_def Let_def pack_defs le_bytes_2)

lemma length_ex_batch: "length ex_batch = 3"
  by (simp add: ex_batch_def)

text \<open>
  C4 on three requests whose segments are 10, 6 and 14 bytes long: the offsets are 8, 18
  and 24.
\<close>

theorem build_message_offset_table_witness:
  "build_segments ex_trp [76] [82] ex_batch =
     Inr [[76, 1, 2, 3, 4, 5, 6, 7, 1, 0], [76, 1, 2, 3, 1, 0],
          [76, 1, 2, 3, 4, 5, 6, 7, 8, 9, 10, 11, 1, 0]]
   \<and> offset_table 8 [10, 6, 14] = [8, 18, 24]
   \<and> build_message ex_trp [76] [82] [Bytes [10], Bytes [2, 32, 2, 36, 1]] ex_batch =
       Inr ([10, 2, 32, 2, 36, 1] @ [3, 0] @ [8, 0, 18, 0, 24, 0]
            @ [76, 1, 2, 3, 4, 5, 6, 7, 1, 0] @ [76, 1, 2, 3, 1, 0]
            @ [76, 1, 2, 3, 4, 5, 6, 7, 8, 9, 10, 11, 1, 0])"
  using build_message_offset_table [OF ex_batch_segments,
      of "[Bytes [10], Bytes [2, 32, 2, 36, 1]]" "[10, 2, 32, 2, 36, 1]"]
  by (simp add: ex_batch_segments length_ex_batch le_bytes_2)

lemma unpack_all_chunks2:
  "length bs = 2 * n \<Longrightarrow>
   unpack_all (chunks2 bs) =
     Inr (map (\<lambda>i. unat (bs ! (2 * i)) + 256 * unat (bs ! (2 * i + 1))) [0..<n])"
proof (induction n arbitrary: bs)
  case 0
  then show ?case by simp
next
  case (Suc n)
  then obtain a b rest where bs: "bs = a # b # rest" and rest: "length rest = 2 * n"
    by (cases bs; cases "tl bs") auto
  show ?case
    unfolding bs using Suc.IH [OF rest]
    by (simp add: Unpack_uint_def map_upt_Suc del: upt_Suc)
qed

lemma chunks2_Nil: "chunks2 bs = [] \<longleftrightarrow> bs = []"
  by (induction bs rule: chunks2.induct) auto

lemma length_start_end_pairs: "os \<noteq> [] \<Longrightarrow> length (start_end_pairs os) = length os"
  by (cases os) (auto simp: start_end_pairs_def)

lemma nth_start_end_pairs:
  "i < length os \<Longrightarrow>
   start_end_pairs os ! i = (os ! i, if Suc i < length os then Some (os ! Suc i) else None)"
  by (cases os) (auto simp: start_end_pairs_def nth_append nth_tl less_Suc_eq_le)

lemma concat_slices:
  "sorted os \<Longrightarrow> os \<noteq> [] \<Longrightarrow>
   concat (map (slice_from_to d) (start_end_pairs os)) = drop (hd os) d"
proof (induction os rule: induct_list012)
  case 1
  then show ?case by simp
next
  case (2 a)
  then show ?case by (simp add: start_end_pairs_def slice_from_to_def)
next
  case (3 a b rest)
  have ih: "concat (map (slice_from_to d) (start_end_pairs (b # rest))) = drop b d"
    using 3 by simp
  have ab: "a \<le> b" using 3 by simp
  have split: "start_end_pairs (a # b # rest) = (a, Some b) # start_end_pairs (b # rest)"
    by (simp add: start_end_pairs_def)
  have "drop a (take b d) @ drop b d = drop a d"
  proof (cases "b \<le> length d")
    case True
    have "drop a d = drop a (take b d @ drop b d)"
      by (simp only: append_take_drop_id)
    also have "\<dots> = drop a (take b d) @ drop (a - length (take b d)) (drop b d)"
      by (simp only: drop_append)
    also have "a - length (take b d) = 0"
      using True ab by simp
    finally show ?thesis by simp
  next
    case False
    then show ?thesis by simp
  qed
  moreover have "slice_from_to d (a, Some b) = drop a (take b d)"
    by (simp add: slice_from_to_def)
  ultimately show ?case by (simp add: split ih)
qed

lemma table_offsets:
  assumes "2 + 2 * n \<le> length d"
  shows "unpack_all (chunks2 (take (2 * n) (drop 2 d))) = Inr (map (offset_at d) [0..<n])"
proof -
  let ?bs = "take (2 * n) (drop 2 d)"
  have len: "length ?bs = 2 * n" using assms by simp
  have nth: "\<And>k. k < 2 * n \<Longrightarrow> ?bs ! k = d ! (2 + k)" using assms by simp
  have "map (\<lambda>i. unat (?bs ! (2 * i)) + 256 * unat (?bs ! (2 * i + 1))) [0..<n]
        = map (offset_at d) [0..<n]"
  proof (rule map_cong [OF refl])
    fix i assume "i \<in> set [0..<n]"
    then have i: "i < n" by simp
    then have "2 * i < 2 * n" "2 * i + 1 < 2 * n" by simp_all
    then have "?bs ! (2 * i) = d ! (2 + 2 * i)" "?bs ! (2 * i + 1) = d ! (2 + (2 * i + 1))"
      by (simp_all only: nth)
    moreover have "2 + (2 * i + 1) = 3 + 2 * i" by simp
    ultimately show "unat (?bs ! (2 * i)) + 256 * unat (?bs ! (2 * i + 1)) = offset_at d i"
      by (simp only: offset_at_def)
  qed
  then show ?thesis using unpack_all_chunks2 [OF len] by simp
qed

lemma slices_by_index:
  assumes "0 < n"
  shows "map (slice_from_to d) (start_end_pairs (map f [0..<n]))
         = map (\<lambda>i. if Suc i < n then drop (f i) (take (f (Suc i)) d) else drop (f i) d)
             [0..<n]"
proof -
  let ?os = "map f [0..<n]"
  have ne: "?os \<noteq> []" using assms by simp
  have len: "length (start_end_pairs ?os) = n"
    using length_start_end_pairs [OF ne] by simp
  show ?thesis
  proof (rule nth_equalityI)
    show "length (map (slice_from_to d) (start_end_pairs ?os))
        = length (map (\<lambda>i. if Suc i < n then drop (f i) (take (f (Suc i)) d) else drop (f i) d)
                    [0..<n])"
      by (simp add: len)
  next
    fix i assume "i < length (map (slice_from_to d) (start_end_pairs ?os))"
    then have i: "i < n" by (simp add: len)
    then have "start_end_pairs ?os ! i = (f i, if Suc i < n then Some (f (Suc i)) else None)"
      using nth_start_end_pairs [of i ?os] by simp
    then show "map (slice_from_to d) (start_end_pairs ?os) ! i
        = map (\<lambda>i. if Suc i < n then drop (f i) (take (f (Suc i)) d) else drop (f i) d)
            [0..<n] ! i"
      using i by (simp add: len slice_from_to_def)
  qed
qed

lemma response_class_fields:
  "response_class base_data srr request raw = Inr r \<Longrightarrow>
   sub_request r = request \<and> raw_data r = raw"
  by (cases request) (auto split: option.splits if_splits)

lemma response_class_builds:
  "(\<forall>p. request = Fragmented p \<longrightarrow> base_data raw \<noteq> None) \<Longrightarrow>
   \<exists>r. response_class base_data srr request raw = Inr r"
  by (cases request) (auto split: option.splits)

lemma build_responses_all:
  assumes "\<forall>i < length xs. \<forall>p. snd (xs ! i) = Fragmented p
             \<longrightarrow> base_data (padding @ fst (xs ! i)) \<noteq> None"
  shows "\<exists>rs. build_responses base_data srr xs = Inr rs \<and> length rs = length xs
           \<and> (\<forall>i < length xs. sub_request (rs ! i) = snd (xs ! i)
                                \<and> raw_data (rs ! i) = padding @ fst (xs ! i))"
  using assms
proof (induction xs)
  case Nil
  then show ?case by simp
next
  case (Cons x xs)
  obtain dat request where x: "x = (dat, request)" by (cases x)
  have "\<forall>p. request = Fragmented p \<longrightarrow> base_data (padding @ dat) \<noteq> None"
    using Cons.prems x by fastforce
  then obtain r where r: "response_class base_data srr request (padding @ dat) = Inr r"
    using response_class_builds by blast
  have "\<forall>i < length xs. \<forall>p. snd (xs ! i) = Fragmented p
          \<longrightarrow> base_data (padding @ fst (xs ! i)) \<noteq> None"
    using Cons.prems by fastforce
  then obtain rs where rs: "build_responses base_data srr xs = Inr rs"
    and len: "length rs = length xs"
    and nth: "\<forall>i < length xs. sub_request (rs ! i) = snd (xs ! i)
                               \<and> raw_data (rs ! i) = padding @ fst (xs ! i)"
    using Cons.IH by blast
  have "\<forall>i < length (x # xs). sub_request ((r # rs) ! i) = snd ((x # xs) ! i)
                               \<and> raw_data ((r # rs) ! i) = padding @ fst ((x # xs) ! i)"
  proof (intro allI impI)
    fix i assume "i < length (x # xs)"
    then show "sub_request ((r # rs) ! i) = snd ((x # xs) ! i)
               \<and> raw_data ((r # rs) ! i) = padding @ fst ((x # xs) ! i)"
      using response_class_fields [OF r] nth x by (cases i) auto
  qed
  then show ?case using r rs len x by simp
qed

text \<open>
  C5, as stated: for every reply whose count field is \<open>n\<close> and whose \<open>n\<close> offsets
  increase strictly, the decoder produces exactly \<open>n\<close> responses. A reply whose count is
  0 has no offset, its (empty) table increases strictly, and the batch of no requests
  matches it; \<open>next(end)\<close> raises \<open>StopIteration\<close> where the claim has a list of no
  responses.
\<close>

theorem parse_reply_count_zero_counterexample:
  "Unpack_uint [0, 0] = Inr 0
   \<and> parse_reply ex_base_data ex_srr [0, 0] [] = Inl StopIteration"
  by (simp add: parse_reply_def Unpack_uint_def)

text \<open>
  C5, amended: for a reply whose count field is \<open>n\<close> with \<open>n\<close> at least 1, whose table of
  \<open>n\<close> offsets lies in the buffer and increases strictly, a batch of at least \<open>n\<close>
  requests, and a base parser that leaves data for the slice of every fragmented read
  among them, \<open>_parse_reply\<close> returns exactly \<open>n\<close> responses, response \<open>i\<close> for request
  \<open>i\<close>, built from slice \<open>i\<close> behind the padding; slice \<open>i\<close> runs from offset \<open>i\<close> to
  offset \<open>i + 1\<close>, the last one to the end of the buffer, and the slices joined are the
  buffer from the first offset on: no overlap and no gap.
\<close>

theorem parse_reply_slices:
  assumes cnt: "Unpack_uint d = Inr n"
      and pos: "0 < n"
      and table: "2 + 2 * n \<le> length d"
      and incr: "\<forall>i. Suc i < n \<longrightarrow> offset_at d i < offset_at d (Suc i)"
      and reqs: "n \<le> length requests"
      and frag: "\<forall>i < n. \<forall>p. requests ! i = Fragmented p
                   \<longrightarrow> base_data (padding @ slice_at d n i) \<noteq> None"
  shows "\<exists>rs. parse_reply base_data srr d requests = Inr rs \<and> length rs = n
           \<and> (\<forall>i < n. sub_request (rs ! i) = requests ! i
                       \<and> raw_data (rs ! i) = padding @ slice_at d n i)
           \<and> concat (map (slice_at d n) [0..<n]) = drop (offset_at d 0) d"
proof -
  let ?os = "map (offset_at d) [0..<n]"
  let ?xs = "zip (map (slice_at d n) [0..<n]) requests"
  have ne: "chunks2 (take (2 * n) (drop 2 d)) \<noteq> []"
    using pos table by (simp add: chunks2_Nil)
  have sl: "map (slice_from_to d) (start_end_pairs ?os) = map (slice_at d n) [0..<n]"
    using slices_by_index [OF pos, of d "offset_at d"] by (simp add: slice_at_def)
  have len: "length ?xs = n" using reqs by simp
  have nth: "\<And>i. i < n \<Longrightarrow> ?xs ! i = (slice_at d n i, requests ! i)"
    using reqs by simp
  have "\<forall>i < length ?xs. \<forall>p. snd (?xs ! i) = Fragmented p
          \<longrightarrow> base_data (padding @ fst (?xs ! i)) \<noteq> None"
    using frag by (simp only: len) (simp add: nth)
  then obtain rs where rs: "build_responses base_data srr ?xs = Inr rs"
    and lrs: "length rs = length ?xs"
    and each: "\<forall>i < length ?xs. sub_request (rs ! i) = snd (?xs ! i)
                                 \<and> raw_data (rs ! i) = padding @ fst (?xs ! i)"
    using build_responses_all [of ?xs base_data srr] by blast
  have 1: "parse_reply base_data srr d requests = Inr rs"
    unfolding parse_reply_def Let_def
    using ne by (simp add: cnt table_offsets [OF table] sl rs)
  have 2: "\<forall>i < n. sub_request (rs ! i) = requests ! i
                   \<and> raw_data (rs ! i) = padding @ slice_at d n i"
    using each by (simp only: len) (simp add: nth)
  have "sorted ?os"
    using incr by (simp add: sorted_iff_nth_Suc less_imp_le)
  moreover have "?os \<noteq> []" using pos by simp
  ultimately have "concat (map (slice_from_to d) (start_end_pairs ?os)) = drop (hd ?os) d"
    by (rule concat_slices)
  moreover have "hd ?os = offset_at d 0"
    using pos by (simp add: hd_map upt_conv_Cons)
  ultimately have 3: "concat (map (slice_at d n) [0..<n]) = drop (offset_at d 0) d"
    by (simp add: sl)
  from 1 2 3 lrs len show ?thesis by auto
qed

lemma ex_batch_reply_increasing:
  "\<forall>i. Suc i < 3 \<longrightarrow> offset_at ex_batch_reply i < offset_at ex_batch_reply (Suc i)"
proof (intro allI impI)
  fix i :: nat assume "Suc i < 3"
  then have "i = 0 \<or> i = 1" by arith
  then show "offset_at ex_batch_reply i < offset_at ex_batch_reply (Suc i)"
    by (auto simp: offset_at_def ex_batch_reply_def)
qed

lemma ex_batch_reply_slices:
  "slice_at ex_batch_reply 3 0 = [1, 1, 1, 1, 1, 1, 1, 1, 1, 1]"
  "slice_at ex_batch_reply 3 (Suc 0) = [2, 2, 2, 2, 2, 2]"
  "slice_at ex_batch_reply 3 2 = [3, 3, 3, 3, 3, 3, 3, 3, 3, 3, 3, 3, 3, 3]"
  by (simp_all add: slice_at_def offset_at_def ex_batch_reply_def)

lemma ex_mixed_batch_data:
  "\<forall>i < 3. \<forall>p. ex_mixed_batch ! i = Fragmented p
     \<longrightarrow> ex_base_data (padding @ slice_at ex_batch_reply 3 i) \<noteq> None"
proof (intro allI impI)
  fix i :: nat and p assume "i < 3"
  then have "i = 0 \<or> i = Suc 0 \<or> i = 2" by arith
  then show "ex_base_data (padding @ slice_at ex_batch_reply 3 i) \<noteq> None"
    by (auto simp: ex_batch_reply_slices ex_base_data_def padding_def)
qed

lemma ex_mixed_batch_parse:
  "parse_reply ex_base_data ex_srr ex_batch_reply ex_mixed_batch =
     Inr [\<lparr> sub_request = ex_mixed_batch ! 0,
            raw_data = padding @ [1, 1, 1, 1, 1, 1, 1, 1, 1, 1],
            data = Some [1, 1, 1, 1, 1, 1], value_bytes = None, data_type_bytes = None \<rparr>,
          \<lparr> sub_request = ex_mixed_batch ! 1, raw_data = padding @ [2, 2, 2, 2, 2, 2],
            data = Some [2, 2], value_bytes = Some [], data_type_bytes = Some [2, 2] \<rparr>,
          \<lparr> sub_request = ex_mixed_batch ! 2,
            raw_data = padding @ [3, 3, 3, 3, 3, 3, 3, 3, 3, 3, 3, 3, 3, 3],
            data = Some [3, 3, 3, 3, 3, 3, 3, 3, 3, 3], value_bytes = None,
            data_type_bytes = None \<rparr>]"
  by (simp add: parse_reply_def Unpack_uint_def ex_batch_reply_def start_end_pairs_def
      slice_from_to_def ex_mixed_batch_def ex_request_def ex_base_data_def ex_srr_def
      padding_def Let_def)

text \<open>
  The amended C5 on a reply of 38 bytes with the offsets 8, 18 and 24 and a batch whose
  second request is a fragmented read: three responses, for the three requests in order,
  from slices of 10, 6 and 14 bytes that together are the buffer from byte 8 on.
\<close>

theorem parse_reply_slices_witness:
  "Unpack_uint ex_batch_reply = Inr 3 \<and> length ex_mixed_batch = 3
   \<and> length ex_batch_reply = 38
   \<and> parse_reply ex_base_data ex_srr ex_batch_reply ex_mixed_batch =
       Inr [\<lparr> sub_request = ex_mixed_batch ! 0,
              raw_data = padding @ [1, 1, 1, 1, 1, 1, 1, 1, 1, 1],
              data = Some [1, 1, 1, 1, 1, 1], value_bytes = None, data_type_bytes = None \<rparr>,
            \<lparr> sub_request = ex_mixed_batch ! 1, raw_data = padding @ [2, 2, 2, 2, 2, 2],
              data = Some [2, 2], value_bytes = Some [], data_type_bytes = Some [2, 2] \<rparr>,
            \<lparr> sub_request = ex_mixed_batch ! 2,
              raw_data = padding @ [3, 3, 3, 3, 3, 3, 3, 3, 3, 3, 3, 3, 3, 3],
              data = Some [3, 3, 3, 3, 3, 3, 3, 3, 3, 3], value_bytes = None,
              data_type_bytes = None \<rparr>]
   \<and> concat (map (slice_at ex_batch_reply 3) [0..<3]) = drop 8 ex_batch_reply"
proof -
  have c: "Unpack_uint ex_batch_reply = Inr 3"
    by (simp add: Unpack_uint_def ex_batch_reply_def)
  have t: "2 + 2 * 3 \<le> length ex_batch_reply"
    by (simp add: ex_batch_reply_def)
  have r: "3 \<le> length ex_mixed_batch"
    by (simp add: ex_mixed_batch_def)
  have o: "offset_at ex_batch_reply 0 = 8"
    by (simp add: offset_at_def ex_batch_reply_def)
  show ?thesis
    using parse_reply_slices [OF c _ t ex_batch_reply_increasing r ex_mixed_batch_data,
        of ex_srr]
    by (simp add: c o ex_mixed_batch_parse) (simp add: ex_mixed_batch_def ex_batch_reply_def)
qed

end
